theory Spec2Isabelle
  imports Complex_Main "HOL-Library.Word" "HOL-Library.Char_ord" "HOL-Library.List_Lexorder"
begin

section \<open>The UltraStar TXT song parser\<close>

text \<open>
  A shallow embedding of \<^verbatim>\<open>Song\<close> (song.hh) and of the TXT parser
  (\<^verbatim>\<open>SongParser::txtParseHeader\<close>, \<^verbatim>\<open>txtParse\<close>, \<^verbatim>\<open>txtParseField\<close>,
  \<^verbatim>\<open>txtParseNote\<close>). Mutation is explicit state passing, every \<^verbatim>\<open>throw\<close> is a
  value of the type \<open>error\<close>, and the loops over the input lines are recursive
  functions over the list of remaining lines. A \<^verbatim>\<open>double\<close> is modelled as a real
  number (exact arithmetic, no NaN), an \<^verbatim>\<open>unsigned int\<close> as a 32-bit word.
\<close>

subsection \<open>Errors\<close>

datatype error =
    RuntimeError string   \<comment> \<open>\<^verbatim>\<open>throw std::runtime_error(msg)\<close>\<close>
  | AssignError string    \<comment> \<open>\<^verbatim>\<open>assign\<close> rejects the text of a value\<close>
  | OutOfRange            \<comment> \<open>\<^verbatim>\<open>std::string::substr\<close> with a position past the end\<close>
  | InvalidBPM            \<comment> \<open>\<^verbatim>\<open>addBPM\<close> refuses a BPM that is not positive\<close>
  | UndefinedBehaviour    \<comment> \<open>an iterator dereferenced outside its container\<close>

subsection \<open>Strings and formatted extraction (the C++ standard library)\<close>

type_synonym uint = "32 word"

definition CR :: char where
  "CR = CHR 0x0D"

definition LF :: char where
  "LF = CHR 0x0A"

definition isspace :: "char \<Rightarrow> bool" where
  "isspace c = (c \<in> set [CHR '' '', CHR 0x09, CHR 0x0A, CHR 0x0B, CHR 0x0C, CHR 0x0D])"

definition isdigit :: "char \<Rightarrow> bool" where
  "isdigit c = (c \<in> set ''0123456789'')"

definition digit_value :: "char \<Rightarrow> nat" where
  "digit_value c = of_char c - 48"

definition decimal :: "string \<Rightarrow> nat" where
  "decimal ds = foldl (\<lambda>v c. 10 * v + digit_value c) 0 ds"

text \<open>\<^verbatim>\<open>boost::trim_copy\<close>: white space removed at both ends.\<close>

definition trim_copy :: "string \<Rightarrow> string" where
  "trim_copy s = rev (dropWhile isspace (rev (dropWhile isspace s)))"

text \<open>\<^verbatim>\<open>s.find(c)\<close>: the position of the first \<open>c\<close>, \<open>None\<close> for \<^verbatim>\<open>npos\<close>.\<close>

definition str_find :: "string \<Rightarrow> char \<Rightarrow> nat option" where
  "str_find s c = (if c \<in> set s then Some (length (takeWhile (\<lambda>x. x \<noteq> c) s)) else None)"

text \<open>\<^verbatim>\<open>s.find_first_not_of(cs)\<close>: the position of the first character outside \<open>cs\<close>.\<close>

definition find_first_not_of :: "string \<Rightarrow> string \<Rightarrow> nat option" where
  "find_first_not_of s cs =
     (if list_all (\<lambda>x. x \<in> set cs) s then None
      else Some (length (takeWhile (\<lambda>x. x \<in> set cs) s)))"

text \<open>\<^verbatim>\<open>s.substr(pos)\<close> with \<^verbatim>\<open>pos = s.find_first_not_of(cs)\<close>: \<^verbatim>\<open>npos\<close> is past the end,
  and \<^verbatim>\<open>substr\<close> throws \<^verbatim>\<open>std::out_of_range\<close>.\<close>

definition substr_from_first_not_of :: "string \<Rightarrow> string \<Rightarrow> error + string" where
  "substr_from_first_not_of s cs =
     (case find_first_not_of s cs of None \<Rightarrow> Inl OutOfRange | Some i \<Rightarrow> Inr (drop i s))"

text \<open>
  Formatted extraction \<^verbatim>\<open>iss >> x\<close> from the rest of a string stream, as the library
  does it since C++11. Leading white space is skipped, then an optional sign and a run
  of decimal digits are read.

  For an \<^verbatim>\<open>unsigned int\<close> the result is the value that the variable holds after the
  extraction, given the value \<open>old\<close> that it held before, and the unread rest of the
  stream; the rest is \<open>None\<close> when the extraction failed (the stream is then in the
  failed state, and every later extraction fails and stores nothing). At the end of the
  stream nothing is stored and the variable keeps \<open>old\<close>; where there is no digit, 0 is
  stored; a number that the type cannot hold stores the largest value of the type. A
  minus sign negates the value modulo \<open>2 ^ 32\<close>.
\<close>

definition read_sign :: "string \<Rightarrow> bool \<times> string" where
  "read_sign s =
     (case s of
        [] \<Rightarrow> (False, [])
      | c # r \<Rightarrow> if c = CHR ''-'' then (True, r) else if c = CHR ''+'' then (False, r) else (False, s))"

definition extract_unsigned :: "string \<Rightarrow> uint \<Rightarrow> uint \<times> string option" where
  "extract_unsigned s old =
     (let s0 = dropWhile isspace s;
          (neg, s1) = read_sign s0;
          ds = takeWhile isdigit s1;
          v = decimal ds
      in if s0 = [] then (old, None)
         else if ds = [] then (0, None)
         else if 2 ^ 32 \<le> v then (word_of_nat (2 ^ 32 - 1), None)
         else (if neg then - word_of_nat v else word_of_nat v, Some (dropWhile isdigit s1)))"

text \<open>
  The extractions of an \<^verbatim>\<open>int\<close> and of a \<^verbatim>\<open>double\<close> are only used where a failure
  throws, so that the value stored by a failed extraction is never read: \<open>None\<close> is the
  failure. A \<^verbatim>\<open>double\<close> is a sign, digits with an optional fraction (at least one digit
  in all), and an optional exponent: \<open>e\<close> or \<open>E\<close>, a sign and digits. An exponent
  mark with no digit after it makes the extraction fail. (A number outside the range of
  a \<^verbatim>\<open>double\<close> is not modelled: the value is the real number written.)
\<close>

definition extract_int :: "string \<Rightarrow> (int \<times> string) option" where
  "extract_int s =
     (let (neg, s1) = read_sign (dropWhile isspace s);
          ds = takeWhile isdigit s1;
          v = (if neg then - int (decimal ds) else int (decimal ds))
      in if ds = [] \<or> v < - (2 ^ 31) \<or> 2 ^ 31 \<le> v then None
         else Some (v, dropWhile isdigit s1))"

definition extract_double :: "string \<Rightarrow> (real \<times> string) option" where
  "extract_double s =
     (let (neg, s1) = read_sign (dropWhile isspace s);
          ip = takeWhile isdigit s1;
          s2 = dropWhile isdigit s1;
          dot = (s2 \<noteq> [] \<and> hd s2 = CHR ''.'');
          fp = (if dot then takeWhile isdigit (tl s2) else []);
          s3 = (if dot then dropWhile isdigit (tl s2) else s2);
          m = real (decimal ip) + real (decimal fp) / 10 ^ length fp;
          sci = (s3 \<noteq> [] \<and> (hd s3 = CHR ''e'' \<or> hd s3 = CHR ''E''));
          (eneg, s4) = read_sign (tl s3);
          ed = takeWhile isdigit s4;
          v = (if sci then (if eneg then m / 10 ^ decimal ed else m * 10 ^ decimal ed) else m)
      in if (ip = [] \<and> fp = []) \<or> (sci \<and> ed = []) then None
         else Some (if neg then - v else v, if sci then dropWhile isdigit s4 else s3))"

subsection \<open>Timebase converter\<close>

text \<open>
  Modelled from the spec: \<^verbatim>\<open>SongParser::addBPM\<close> and \<^verbatim>\<open>SongParser::tsTime\<close> are
  declared in songparser.hh and defined outside the files under src; the definitions
  below follow section 4.1 of the specification. The state is the ordered sequence of
  change-points (tick, BPM, seconds-offset at which the change takes effect), the
  currently active BPM (0 for "no BPM yet") and the most recently resolved
  seconds-offset. \<open>addBPM\<close> appends a change-point after advancing the running offset
  by the ticks elapsed since the last change-point at the previous BPM. \<open>tsTime\<close>
  is the offset of the last change-point at or before the tick plus the ticks since it
  times \<open>60 / (BPM * resolution)\<close>; where there is no such change-point (in particular
  with no BPM registered) the time-0 offset is returned. A BPM that is not positive is
  not accepted: \<open>addBPM\<close> raises an error and registers nothing.
\<close>

record ChangePoint =
  cp_tick :: nat
  cp_bpm :: real
  cp_offset :: real

record Timebase =
  changes :: "ChangePoint list"
  active_bpm :: real
  offset :: real

definition Timebase_init :: Timebase where
  "Timebase_init = \<lparr>changes = [], active_bpm = 0, offset = 0\<rparr>"

definition resolution :: real where
  "resolution = 4"

definition tick_seconds :: "real \<Rightarrow> real" where
  "tick_seconds b = 60 / (b * resolution)"

definition addBPM :: "Timebase \<Rightarrow> nat \<Rightarrow> real \<Rightarrow> error + Timebase" where
  "addBPM tb tick b =
     (if b \<le> 0 then Inl InvalidBPM
      else
        (let elapsed = (case changes tb of [] \<Rightarrow> 0 | c # cs \<Rightarrow> real tick - real (cp_tick (last (c # cs))));
             off = (if active_bpm tb = 0 then offset tb
                    else offset tb + elapsed * tick_seconds (active_bpm tb))
         in Inr \<lparr>changes = changes tb @ [\<lparr>cp_tick = tick, cp_bpm = b, cp_offset = off\<rparr>],
                  active_bpm = b, offset = off\<rparr>))"

definition tsTime :: "Timebase \<Rightarrow> nat \<Rightarrow> real" where
  "tsTime tb tick =
     (case find (\<lambda>c. cp_tick c \<le> tick) (rev (changes tb)) of
        None \<Rightarrow> 0
      | Some c \<Rightarrow> cp_offset c + (real tick - real (cp_tick c)) * tick_seconds (cp_bpm c))"

text \<open>A sequence of \<open>addBPM\<close> calls, in order; the first error ends it.\<close>

fun addBPMs :: "Timebase \<Rightarrow> (nat \<times> real) list \<Rightarrow> error + Timebase" where
  "addBPMs tb [] = Inr tb"
| "addBPMs tb ((tick, b) # calls) =
     (case addBPM tb tick b of Inl e \<Rightarrow> Inl e | Inr tb' \<Rightarrow> addBPMs tb' calls)"

subsection \<open>Notes and vocal tracks (notes.hh)\<close>

text \<open>
  Modelled from the spec: notes.hh (\<^verbatim>\<open>Note\<close>, \<^verbatim>\<open>Note::Type\<close>, \<^verbatim>\<open>VocalTrack\<close>,
  \<^verbatim>\<open>VocalTracks\<close>) is included by song.hh and is not among the files under src. The
  records follow section 3 of the specification; the fields \<^verbatim>\<open>begin\<close>, \<^verbatim>\<open>end\<close>,
  \<^verbatim>\<open>type\<close>, \<^verbatim>\<open>note\<close>, ... of a note are prefixed with \<open>n_\<close>, and the note
  sequence of a track is \<open>vt_notes\<close> (these names are keywords). The enumerators of
  \<^verbatim>\<open>Note::Type\<close> are the character codes of the format; \<open>Note_Type\<close> is the
  conversion \<^verbatim>\<open>Note::Type(c)\<close>, \<open>None\<close> for a code none of the four cases of the
  \<^verbatim>\<open>switch\<close> in \<^verbatim>\<open>txtParseNote\<close> matches. A default-constructed note has no
  syllable and no line break; a new vocal track has no notes.
\<close>

datatype NoteType = FREESTYLE | NORMAL | GOLDEN | SLEEP

definition Note_Type :: "char \<Rightarrow> NoteType option" where
  "Note_Type c =
     (if c = CHR ''F'' then Some FREESTYLE
      else if c = CHR '':'' then Some NORMAL
      else if c = CHR ''*'' then Some GOLDEN
      else if c = CHR ''-'' then Some SLEEP
      else None)"

record Note =
  n_begin :: real
  n_end :: real
  n_type :: NoteType
  n_note :: int
  n_notePrev :: int
  n_syllable :: string
  n_lineBreak :: bool

definition Note_new :: Note where
  "Note_new = \<lparr>n_begin = 0, n_end = 0, n_type = NORMAL, n_note = 0, n_notePrev = 0,
                n_syllable = [], n_lineBreak = False\<rparr>"

record VocalTrack =
  name :: string
  vt_notes :: "Note list"
  noteMin :: int
  noteMax :: int

definition VocalTrack_new :: "string \<Rightarrow> VocalTrack" where
  "VocalTrack_new nm = \<lparr>name = nm, vt_notes = [], noteMin = 2 ^ 31 - 1, noteMax = - (2 ^ 31)\<rparr>"

text \<open>
  A \<^verbatim>\<open>std::map\<close> is an association list kept in strictly ascending order of the keys,
  so that \<^verbatim>\<open>begin()\<close> is its head; \<^verbatim>\<open>insert\<close> leaves an existing key alone.
  \<^verbatim>\<open>VocalTracks\<close> is the map from track names to tracks; strings are compared
  character by character, a proper prefix being smaller.
\<close>

definition map_find :: "('k \<times> 'v) list \<Rightarrow> 'k \<Rightarrow> 'v option" where
  "map_find m k = map_of m k"

definition map_erase :: "('k \<times> 'v) list \<Rightarrow> 'k \<Rightarrow> ('k \<times> 'v) list" where
  "map_erase m k = filter (\<lambda>e. fst e \<noteq> k) m"

fun map_insert :: "('k::linorder \<times> 'v) list \<Rightarrow> 'k \<Rightarrow> 'v \<Rightarrow> ('k \<times> 'v) list" where
  "map_insert [] k v = [(k, v)]"
| "map_insert ((k', v') # m) k v =
     (if k < k' then (k, v) # (k', v') # m
      else if k = k' then (k', v') # m
      else (k', v') # map_insert m k v)"

type_synonym VocalTracks = "(string \<times> VocalTrack) list"

subsection \<open>Song (song.hh)\<close>

definition LEAD_VOCAL :: string where
  "LEAD_VOCAL = ''Vocals''"

text \<open>The members of \<^verbatim>\<open>Song\<close> that the TXT parser and the track lookup read or write, and
  the flag \<^verbatim>\<open>b0rkedTracks\<close>.\<close>

record Song =
  vocalTracks :: VocalTracks
  dummyVocal :: VocalTrack
  path :: string
  filename :: string
  genre :: string
  edition :: string
  title :: string
  artist :: string
  creator :: string
  language :: string
  music :: "string \<rightharpoonup> string"
  cover :: string
  background :: string
  video :: string
  videoGap :: real
  start :: real
  preview_start :: real
  b0rkedTracks :: bool

definition insertVocalTrack :: "Song \<Rightarrow> string \<Rightarrow> VocalTrack \<Rightarrow> Song" where
  "insertVocalTrack s vocalTrack track =
     s\<lparr>vocalTracks := map_insert (map_erase (vocalTracks s) vocalTrack) vocalTrack track\<rparr>"

definition getVocalTrack :: "Song \<Rightarrow> string \<Rightarrow> VocalTrack" where
  "getVocalTrack s vocalTrack =
     (case map_find (vocalTracks s) vocalTrack of
        Some t \<Rightarrow> t
      | None \<Rightarrow>
         (case map_find (vocalTracks s) LEAD_VOCAL of
            Some t \<Rightarrow> t
          | None \<Rightarrow>
             (case vocalTracks s of
                e # es \<Rightarrow> snd e
              | [] \<Rightarrow> dummyVocal s)))"

definition getVocalTrackNames :: "Song \<Rightarrow> string list" where
  "getVocalTrackNames s = map fst (vocalTracks s)"

definition hasVocals :: "Song \<Rightarrow> bool" where
  "hasVocals s = (vocalTracks s \<noteq> [])"

subsection \<open>The parser state (songparser.hh)\<close>

text \<open>
  Modelled from the spec: the class \<^verbatim>\<open>SongParser\<close> is declared in songparser.hh, which
  is not among the files under src. Its members are the ones the functions below use
  (section 4.3 of the specification): the song being filled, the relative-mode flag, the
  gap, the BPM captured in the header, the last resolved end-time and tick, the
  relative shift and the timebase. \<open>cout\<close> collects what is written to \<^verbatim>\<open>std::cout\<close>.
  \<^verbatim>\<open>assign\<close> (namespace SongParserUtil) converts the text of a value and throws on
  malformed text: a number for a \<^verbatim>\<open>double\<close>, a numeric flag for a \<^verbatim>\<open>bool\<close>.
\<close>

record SongParser =
  m_song :: Song
  m_relative :: bool
  m_gap :: real
  m_bpm :: real
  m_prevtime :: real
  m_prevts :: uint
  m_relativeShift :: uint
  m_bpms :: Timebase
  cout :: "string list"

definition assign_double :: "string \<Rightarrow> error + real" where
  "assign_double str =
     (case extract_double str of
        None \<Rightarrow> Inl (AssignError str)
      | Some (v, r) \<Rightarrow> if r = [] then Inr v else Inl (AssignError str))"

definition assign_bool :: "string \<Rightarrow> error + bool" where
  "assign_bool str =
     (case extract_double str of
        None \<Rightarrow> Inl (AssignError str)
      | Some (v, r) \<Rightarrow> if r = [] then Inr (v \<noteq> 0) else Inl (AssignError str))"

text \<open>The member function \<^verbatim>\<open>addBPM(ts, bpm)\<close> of the parser, on its timebase.\<close>

definition SongParser_addBPM :: "SongParser \<Rightarrow> nat \<Rightarrow> real \<Rightarrow> error + SongParser" where
  "SongParser_addBPM p tick b =
     (case addBPM (m_bpms p) tick b of Inl e \<Rightarrow> Inl e | Inr tb \<Rightarrow> Inr (p\<lparr>m_bpms := tb\<rparr>))"

text \<open>\<^verbatim>\<open>if (m_bpm != 0.0) addBPM(0, m_bpm);\<close>\<close>

definition txtParse_bpm :: "SongParser \<Rightarrow> error + SongParser" where
  "txtParse_bpm p = (if m_bpm p \<noteq> 0 then SongParser_addBPM p 0 (m_bpm p) else Inr p)"

subsection \<open>\<^verbatim>\<open>SongParser::txtParseField\<close>\<close>

text \<open>The chain of comparisons of the key, with the trimmed non-empty value.\<close>

definition txtParseField_key :: "SongParser \<Rightarrow> string \<Rightarrow> string \<Rightarrow> error + (bool \<times> SongParser)" where
  "txtParseField_key p key val =
     (let s = m_song p in
      if key = ''TITLE'' then
        (case substr_from_first_not_of val '' :'' of
           Inl e \<Rightarrow> Inl e | Inr v \<Rightarrow> Inr (True, p\<lparr>m_song := s\<lparr>title := v\<rparr>\<rparr>))
      else if key = ''ARTIST'' then
        (case substr_from_first_not_of val '' '' of
           Inl e \<Rightarrow> Inl e | Inr v \<Rightarrow> Inr (True, p\<lparr>m_song := s\<lparr>artist := v\<rparr>\<rparr>))
      else if key = ''EDITION'' then
        (case substr_from_first_not_of val '' '' of
           Inl e \<Rightarrow> Inl e | Inr v \<Rightarrow> Inr (True, p\<lparr>m_song := s\<lparr>edition := v\<rparr>\<rparr>))
      else if key = ''GENRE'' then
        (case substr_from_first_not_of val '' '' of
           Inl e \<Rightarrow> Inl e | Inr v \<Rightarrow> Inr (True, p\<lparr>m_song := s\<lparr>genre := v\<rparr>\<rparr>))
      else if key = ''CREATOR'' then
        (case substr_from_first_not_of val '' '' of
           Inl e \<Rightarrow> Inl e | Inr v \<Rightarrow> Inr (True, p\<lparr>m_song := s\<lparr>creator := v\<rparr>\<rparr>))
      else if key = ''COVER'' then Inr (True, p\<lparr>m_song := s\<lparr>cover := val\<rparr>\<rparr>)
      else if key = ''MP3'' then
        Inr (True, p\<lparr>m_song := s\<lparr>music := (music s)(''background'' \<mapsto> path s @ val)\<rparr>\<rparr>)
      else if key = ''VOCALS'' then
        Inr (True, p\<lparr>m_song := s\<lparr>music := (music s)(''vocals'' \<mapsto> path s @ val)\<rparr>\<rparr>)
      else if key = ''VIDEO'' then Inr (True, p\<lparr>m_song := s\<lparr>video := val\<rparr>\<rparr>)
      else if key = ''BACKGROUND'' then Inr (True, p\<lparr>m_song := s\<lparr>background := val\<rparr>\<rparr>)
      else if key = ''START'' then
        (case assign_double val of
           Inl e \<Rightarrow> Inl e | Inr v \<Rightarrow> Inr (True, p\<lparr>m_song := s\<lparr>start := v\<rparr>\<rparr>))
      else if key = ''VIDEOGAP'' then
        (case assign_double val of
           Inl e \<Rightarrow> Inl e | Inr v \<Rightarrow> Inr (True, p\<lparr>m_song := s\<lparr>videoGap := v\<rparr>\<rparr>))
      else if key = ''PREVIEWSTART'' then
        (case assign_double val of
           Inl e \<Rightarrow> Inl e | Inr v \<Rightarrow> Inr (True, p\<lparr>m_song := s\<lparr>preview_start := v\<rparr>\<rparr>))
      else if key = ''RELATIVE'' then
        (case assign_bool val of
           Inl e \<Rightarrow> Inl e | Inr v \<Rightarrow> Inr (True, p\<lparr>m_relative := v\<rparr>))
      else if key = ''GAP'' then
        (case assign_double val of
           Inl e \<Rightarrow> Inl e | Inr v \<Rightarrow> Inr (True, p\<lparr>m_gap := v * (1 / 1000)\<rparr>))
      else if key = ''BPM'' then
        (case assign_double val of
           Inl e \<Rightarrow> Inl e | Inr v \<Rightarrow> Inr (True, p\<lparr>m_bpm := v\<rparr>))
      else if key = ''LANGUAGE'' then
        (case substr_from_first_not_of val '' '' of
           Inl e \<Rightarrow> Inl e | Inr v \<Rightarrow> Inr (True, p\<lparr>m_song := s\<lparr>language := v\<rparr>\<rparr>))
      else Inr (True, p))"

definition txtParseField :: "SongParser \<Rightarrow> string \<Rightarrow> error + (bool \<times> SongParser)" where
  "txtParseField p line =
     (if line = [] then Inr (True, p)
      else if hd line \<noteq> CHR ''#'' then Inr (False, p)
      else
        (case str_find line CHR '':'' of
           None \<Rightarrow> Inl (RuntimeError ''Invalid txt format, should be #key:value'')
         | Some pos \<Rightarrow>
            (let key = trim_copy (take (pos - 1) (drop 1 line));
                 val = trim_copy (drop (pos + 1) line)
             in if val = [] then Inr (True, p) else txtParseField_key p key val)))"

subsection \<open>\<^verbatim>\<open>SongParser::txtParseNote\<close>\<close>

text \<open>
  The declaration of the note and the \<^verbatim>\<open>switch\<close> over its type: the line (without a
  trailing carriage return) is read through a string stream, and the result is the note
  (type, end, pitch and syllable set), the tick \<^verbatim>\<open>ts\<close> and the parser, whose relative
  shift a SLEEP line moves. \<^verbatim>\<open>ts\<close> starts as \<^verbatim>\<open>m_prevts\<close>, and on a SLEEP line whose
  tick cannot be read it holds what the failed extraction left in it (\<^verbatim>\<open>m_prevts\<close> at
  the end of the line, otherwise 0 or the largest value); \<^verbatim>\<open>end\<close> is not initialised
  and is only read after a successful extraction.
\<close>

definition txtParseNote_read :: "SongParser \<Rightarrow> string \<Rightarrow> error + (Note \<times> uint \<times> SongParser)" where
  "txtParseNote_read p line =
     (let iss = tl line in
      case Note_Type (hd line) of
        None \<Rightarrow> Inl (RuntimeError ''Unknown note type'')
      | Some SLEEP \<Rightarrow>
          (let (ts, e) =
                 (case extract_unsigned iss (m_prevts p) of
                    (t, None) \<Rightarrow> (t, t)
                  | (t, Some r) \<Rightarrow>
                      (case extract_unsigned r 0 of (e, None) \<Rightarrow> (t, t) | (e, Some r') \<Rightarrow> (t, e)));
               (ts, e, p) =
                 (if m_relative p
                  then (ts + m_relativeShift p, e + m_relativeShift p,
                        p\<lparr>m_relativeShift := e + m_relativeShift p\<rparr>)
                  else (ts, e, p))
           in Inr (Note_new\<lparr>n_type := SLEEP, n_end := tsTime (m_bpms p) (unat e)\<rparr>, ts, p))
      | Some ty \<Rightarrow>
          (case extract_unsigned iss (m_prevts p) of
             (ts, None) \<Rightarrow> Inl (RuntimeError ''Invalid note line format'')
           | (ts, Some r1) \<Rightarrow>
          (case extract_unsigned r1 0 of
             (len, None) \<Rightarrow> Inl (RuntimeError ''Invalid note line format'')
           | (len, Some r2) \<Rightarrow>
          (case extract_int r2 of
             None \<Rightarrow> Inl (RuntimeError ''Invalid note line format'')
           | Some (pitch, r3) \<Rightarrow>
              (let ts = (if m_relative p then ts + m_relativeShift p else ts);
                   syl = (case r3 of
                            [] \<Rightarrow> []
                          | c # r \<Rightarrow> if c = CHR '' '' then takeWhile (\<lambda>x. x \<noteq> LF) r else [])
               in Inr (Note_new\<lparr>n_type := ty, n_note := pitch, n_notePrev := pitch,
                         n_syllable := syl, n_end := tsTime (m_bpms p) (unat (ts + len))\<rparr>,
                       ts, p))))))"

text \<open>
  The workaround for a SLEEP before an overlapping note: the last note \<^verbatim>\<open>p\<close> is
  collapsed to its begin, and the note before it, \<^verbatim>\<open>*++notes.rbegin()\<close>, is inspected.
  With a single note in the sequence that iterator is \<^verbatim>\<open>notes.rend()\<close>, which must not
  be dereferenced.
\<close>

definition txtParseNote_sleep :: "Note list \<Rightarrow> real \<Rightarrow> error + Note list" where
  "txtParseNote_sleep ns b =
     (let p = last ns in
      if n_type p = SLEEP then
        (let p = p\<lparr>n_end := n_begin p\<rparr> in
         if length ns < 2 then Inl UndefinedBehaviour
         else
           (let p2 = ns ! (length ns - 2) in
            Inr (butlast ns @ [if n_end p2 < b then p\<lparr>n_begin := b, n_end := b\<rparr> else p])))
      else Inr ns)"

text \<open>The warning written to \<^verbatim>\<open>std::cout\<close> for a skipped note.\<close>

definition skip_warning :: "Song \<Rightarrow> string" where
  "skip_warning s =
     ''songparser/warning: Skipping overlapping note in '' @ path s @ filename s @ [LF]"

text \<open>
  The block under \<^verbatim>\<open>if (n.begin < m_prevtime)\<close>. The result is whether the note is
  skipped, the note sequence and the parser (a skipped note writes a warning).
\<close>

definition txtParseNote_overlap ::
    "SongParser \<Rightarrow> Note list \<Rightarrow> Note \<Rightarrow> error + (bool \<times> Note list \<times> SongParser)" where
  "txtParseNote_overlap p ns n =
     (if n_begin n < m_prevtime p then
        (if 1 \<le> length ns then
           (case txtParseNote_sleep ns (n_begin n) of
              Inl e \<Rightarrow> Inl e
            | Inr ns \<Rightarrow>
               (let q = last ns in
                if n_begin q \<le> n_begin n then Inr (False, butlast ns @ [q\<lparr>n_end := n_begin n\<rparr>], p)
                else Inr (True, ns, p\<lparr>cout := cout p @ [skip_warning (m_song p)]\<rparr>)))
         else Inl (RuntimeError ''The first note has negative timestamp''))
      else Inr (False, ns, p))"

text \<open>The rest of the function, from \<^verbatim>\<open>double prevtime = m_prevtime\<close> on.\<close>

definition txtParseNote_push :: "SongParser \<Rightarrow> VocalTrack \<Rightarrow> Note \<Rightarrow> bool \<times> SongParser \<times> VocalTrack" where
  "txtParseNote_push p vocal n =
     (let prevtime = m_prevtime p;
          p = p\<lparr>m_prevtime := n_end n\<rparr>;
          vocal = (if n_type n \<noteq> SLEEP \<and> n_begin n < n_end n
                   then vocal\<lparr>noteMin := min (noteMin vocal) (n_note n),
                              noteMax := max (noteMax vocal) (n_note n)\<rparr>
                   else vocal)
      in if n_type n = SLEEP then
           (if vt_notes vocal = [] then (True, p, vocal)
            else
              (let n = n\<lparr>n_begin := prevtime, n_end := prevtime\<rparr>;
                   ns = butlast (vt_notes vocal) @ [(last (vt_notes vocal))\<lparr>n_lineBreak := True\<rparr>]
               in (True, p, vocal\<lparr>vt_notes := ns @ [n]\<rparr>)))
         else (True, p, vocal\<lparr>vt_notes := vt_notes vocal @ [n]\<rparr>))"

text \<open>\<^verbatim>\<open>if (m_relative && notes.empty()) m_relativeShift = ts; m_prevts = ts;\<close>\<close>

definition txtParseNote_seed :: "SongParser \<Rightarrow> VocalTrack \<Rightarrow> uint \<Rightarrow> SongParser" where
  "txtParseNote_seed p vocal ts =
     (if m_relative p \<and> vt_notes vocal = [] then p\<lparr>m_relativeShift := ts\<rparr> else p)\<lparr>m_prevts := ts\<rparr>"

text \<open>From \<^verbatim>\<open>n.begin = tsTime(ts)\<close> to the end of the function.\<close>

definition txtParseNote_place ::
    "SongParser \<Rightarrow> VocalTrack \<Rightarrow> Note \<Rightarrow> uint \<Rightarrow> error + (bool \<times> SongParser \<times> VocalTrack)" where
  "txtParseNote_place p vocal n ts =
     (let n = n\<lparr>n_begin := tsTime (m_bpms p) (unat ts)\<rparr>;
          p = txtParseNote_seed p vocal ts
      in case txtParseNote_overlap p (vt_notes vocal) n of
           Inl e \<Rightarrow> Inl e
         | Inr (skip, ns, p) \<Rightarrow>
             if skip then Inr (True, p, vocal\<lparr>vt_notes := ns\<rparr>)
             else Inr (txtParseNote_push p (vocal\<lparr>vt_notes := ns\<rparr>) n))"

text \<open>\<^verbatim>\<open>if (line[line.size() - 1] == '\r') line.erase(line.size() - 1)\<close>, on a line that is
  not empty.\<close>

definition erase_cr :: "string \<Rightarrow> string" where
  "erase_cr line = (if last line = CR then butlast line else line)"

definition txtParseNote ::
    "SongParser \<Rightarrow> string \<Rightarrow> VocalTrack \<Rightarrow> error + (bool \<times> SongParser \<times> VocalTrack)" where
  "txtParseNote p line vocal =
     (if line = [] \<or> line = [CR] then Inr (True, p, vocal)
      else if hd line = CHR ''#'' then Inl (RuntimeError ''Key found in the middle of notes'')
      else
        (let line = erase_cr line in
         if hd line = CHR ''E'' then Inr (False, p, vocal)
         else if hd line = CHR ''B'' then
           (case extract_unsigned (tl line) 0 of
              (ts, None) \<Rightarrow> Inl (RuntimeError ''Invalid BPM line format'')
            | (ts, Some r) \<Rightarrow>
               (case extract_double r of
                  None \<Rightarrow> Inl (RuntimeError ''Invalid BPM line format'')
                | Some (b, r') \<Rightarrow>
                   (case SongParser_addBPM p (unat ts) b of
                      Inl e \<Rightarrow> Inl e
                    | Inr p \<Rightarrow> Inr (True, p, vocal))))
         else if hd line = CHR ''P'' then Inr (True, p, vocal)
         else
           (case txtParseNote_read p line of
              Inl e \<Rightarrow> Inl e
            | Inr (n, ts, p) \<Rightarrow> txtParseNote_place p vocal n ts)))"

subsection \<open>\<^verbatim>\<open>SongParser::txtParseHeader\<close> and \<^verbatim>\<open>SongParser::txtParse\<close>\<close>

text \<open>
  Modelled from the spec: \<^verbatim>\<open>SongParser::getline\<close> is declared in songparser.hh, which is
  not among the files under src. The line source is the list of the lines not read
  yet; \<^verbatim>\<open>getline(line)\<close> fails on the empty list and leaves \<^verbatim>\<open>line\<close> as it was,
  otherwise it moves the first line into \<^verbatim>\<open>line\<close>.

  \<open>txtParseFields\<close> is the loop \<^verbatim>\<open>while (getline(line) && txtParseField(line)) {}\<close>: the
  result is the lines left, the last line read and the parser.
\<close>

fun txtParseFields :: "string list \<Rightarrow> string \<Rightarrow> SongParser \<Rightarrow> error + (string list \<times> string \<times> SongParser)" where
  "txtParseFields [] line p = Inr ([], line, p)"
| "txtParseFields (l # ls) line p =
     (case txtParseField p l of
        Inl e \<Rightarrow> Inl e
      | Inr (cont, p') \<Rightarrow> if cont then txtParseFields ls l p' else Inr (ls, l, p'))"

text \<open>The loop \<^verbatim>\<open>while (txtParseNote(line, vocal) && getline(line)) {}\<close>.\<close>

fun txtParseNotes ::
    "string list \<Rightarrow> string \<Rightarrow> SongParser \<Rightarrow> VocalTrack \<Rightarrow> error + (string list \<times> SongParser \<times> VocalTrack)" where
  "txtParseNotes ls line p vocal =
     (case txtParseNote p line vocal of
        Inl e \<Rightarrow> Inl e
      | Inr (cont, p', vocal') \<Rightarrow>
          if cont then
            (case ls of
               [] \<Rightarrow> Inr ([], p', vocal')
             | l # ls' \<Rightarrow> txtParseNotes ls' l p' vocal')
          else Inr (ls, p', vocal'))"

definition txtParseHeader :: "string list \<Rightarrow> SongParser \<Rightarrow> error + (string list \<times> SongParser)" where
  "txtParseHeader ls p =
     (case txtParseFields ls [] p of
        Inl e \<Rightarrow> Inl e
      | Inr (ls, line, p) \<Rightarrow>
          if title (m_song p) = [] \<or> artist (m_song p) = []
          then Inl (RuntimeError ''Required header fields missing'')
          else
            (case txtParse_bpm p of
               Inl e \<Rightarrow> Inl e
             | Inr p \<Rightarrow>
                Inr (ls, p\<lparr>m_song := insertVocalTrack (m_song p) LEAD_VOCAL (VocalTrack_new LEAD_VOCAL)\<rparr>)))"

definition txtParse :: "string list \<Rightarrow> SongParser \<Rightarrow> error + (string list \<times> SongParser)" where
  "txtParse ls p =
     (let vocal = VocalTrack_new LEAD_VOCAL in
      case txtParseFields ls [] p of
        Inl e \<Rightarrow> Inl e
      | Inr (ls, line, p) \<Rightarrow>
          (case txtParse_bpm p of
             Inl e \<Rightarrow> Inl e
           | Inr p \<Rightarrow>
          (case txtParseNotes ls line p vocal of
             Inl e \<Rightarrow> Inl e
           | Inr (ls, p, vocal) \<Rightarrow>
               (let vocal =
                      (if vt_notes vocal \<noteq> [] \<and> n_type (last (vt_notes vocal)) \<noteq> SLEEP
                          \<and> n_begin (last (vt_notes vocal)) = n_end (last (vt_notes vocal))
                       then vocal\<lparr>vt_notes := butlast (vt_notes vocal)\<rparr>
                       else vocal)
                in Inr (ls, p\<lparr>m_song := insertVocalTrack (m_song p) LEAD_VOCAL vocal\<rparr>)))))"

subsection \<open>Notions used in the statements and proofs\<close>

text \<open>
  A note line: a line \<^verbatim>\<open>txtParseNote\<close> neither ignores (empty, a lone carriage return,
  a \<open>P\<close> line) nor treats as a key, the end of the track or a tempo change.
\<close>

definition note_line :: "string \<Rightarrow> bool" where
  "note_line line =
     (line \<noteq> [] \<and> line \<noteq> [CR] \<and> hd line \<noteq> CHR ''#''
      \<and> hd (erase_cr line) \<noteq> CHR ''E'' \<and> hd (erase_cr line) \<noteq> CHR ''B''
      \<and> hd (erase_cr line) \<noteq> CHR ''P'')"

text \<open>The text of a field line after its first colon.\<close>

definition after_colon :: "string \<Rightarrow> string" where
  "after_colon line = tl (dropWhile (\<lambda>c. c \<noteq> CHR '':'') line)"

text \<open>A note sequence does not start with a SLEEP.\<close>

definition lead_ok :: "Note list \<Rightarrow> bool" where
  "lead_ok ns = (case ns of [] \<Rightarrow> True | n # r \<Rightarrow> n_type n \<noteq> SLEEP)"

text \<open>
  The begin of the last note of a non-empty sequence once the SLEEP workaround of the
  overlap recovery has run for a new note that begins at \<open>b\<close>: a SLEEP whose
  predecessor ends before \<open>b\<close> is moved to \<open>b\<close>.
\<close>

definition prev_begin :: "Note list \<Rightarrow> real \<Rightarrow> real" where
  "prev_begin ns b =
     (if n_type (last ns) = SLEEP \<and> n_end (ns ! (length ns - 2)) < b then b
      else n_begin (last ns))"

text \<open>The keys of a \<^verbatim>\<open>std::map\<close> are in strictly ascending order.\<close>

definition ordered :: "('k::linorder \<times> 'v) list \<Rightarrow> bool" where
  "ordered m = sorted_wrt (<) (map fst m)"

text \<open>The invariant of the timebase under \<open>addBPM\<close> calls with non-decreasing ticks and
  positive BPM, and the tick of its last change-point.\<close>

definition tb_inv :: "Timebase \<Rightarrow> bool" where
  "tb_inv tb \<longleftrightarrow>
     (changes tb = [] \<longrightarrow> active_bpm tb = 0 \<and> offset tb = 0)
     \<and> (changes tb \<noteq> [] \<longrightarrow> active_bpm tb = cp_bpm (last (changes tb)) \<and> 0 < active_bpm tb
                 \<and> offset tb = cp_offset (last (changes tb)))
     \<and> (\<forall>a b. a \<le> b \<longrightarrow> tsTime tb a \<le> tsTime tb b)
     \<and> (\<forall>a. 0 \<le> tsTime tb a)"

definition last_tick :: "Timebase \<Rightarrow> nat" where
  "last_tick tb = (case changes tb of [] \<Rightarrow> 0 | c # cs \<Rightarrow> cp_tick (last (c # cs)))"

text \<open>What a call of \<^verbatim>\<open>txtParseNote\<close> or a run of the note loop leaves: the parser and the
  track, if no error was raised.\<close>

definition parser_of :: "error + ('a \<times> SongParser \<times> VocalTrack) \<Rightarrow> SongParser option" where
  "parser_of r = (case r of Inl e \<Rightarrow> None | Inr x \<Rightarrow> Some (fst (snd x)))"

definition track_of :: "error + ('a \<times> SongParser \<times> VocalTrack) \<Rightarrow> VocalTrack option" where
  "track_of r = (case r of Inl e \<Rightarrow> None | Inr x \<Rightarrow> Some (snd (snd x)))"

subsection \<open>Example states\<close>

text \<open>
  The timebase with 60 beats per minute registered at tick 0, so that a tick lasts a
  quarter of a second; a song with no tracks, and a parser at the start of the note
  stream: no note line read, 60 beats per minute captured in the header and registered.
  \<open>parser_rel\<close> is the same parser in relative mode, and \<open>header0\<close> the parser before
  the header is read, with no BPM.
\<close>

definition timebase_60 :: Timebase where
  "timebase_60 = \<lparr>changes = [\<lparr>cp_tick = 0, cp_bpm = 60, cp_offset = 0\<rparr>], active_bpm = 60, offset = 0\<rparr>"

definition song0 :: Song where
  "song0 = \<lparr>vocalTracks = [], dummyVocal = VocalTrack_new LEAD_VOCAL, path = ''songs/'',
            filename = ''a.txt'', genre = [], edition = [], title = [], artist = [],
            creator = [], language = [], music = Map.empty, cover = [], background = [],
            video = [], videoGap = 0, start = 0, preview_start = 0, b0rkedTracks = False\<rparr>"

definition parser0 :: SongParser where
  "parser0 = \<lparr>m_song = song0, m_relative = False, m_gap = 0, m_bpm = 60, m_prevtime = 0,
               m_prevts = 0, m_relativeShift = 0, m_bpms = timebase_60, cout = []\<rparr>"

definition parser_rel :: SongParser where
  "parser_rel = parser0\<lparr>m_relative := True\<rparr>"

definition header0 :: SongParser where
  "header0 = parser0\<lparr>m_bpm := 0, m_bpms := Timebase_init\<rparr>"

text \<open>The note of the line \<open>: 4 4 5 la\<close> (ticks 4 to 8, from 1 s to 2 s), and the track and
  the parser that line leaves when it is the first of the track.\<close>

definition note_1 :: Note where
  "note_1 = \<lparr>n_begin = 1, n_end = 2, n_type = NORMAL, n_note = 5, n_notePrev = 5,
              n_syllable = ''la'', n_lineBreak = False\<rparr>"

definition track_1 :: VocalTrack where
  "track_1 = \<lparr>name = LEAD_VOCAL, vt_notes = [note_1], noteMin = 5, noteMax = 5\<rparr>"

definition parser_1 :: SongParser where
  "parser_1 = parser0\<lparr>m_prevtime := 2, m_prevts := 4\<rparr>"

text \<open>The track and the parser after the further line \<open>- 6 12\<close>: the first note is cut at
  the SLEEP's begin (1.5 s) and ends a line, and the SLEEP stands at the former
  \<open>m_prevtime\<close>.\<close>

definition note_s :: Note where
  "note_s = \<lparr>n_begin = 2, n_end = 2, n_type = SLEEP, n_note = 0, n_notePrev = 0,
              n_syllable = [], n_lineBreak = False\<rparr>"

definition track_s :: VocalTrack where
  "track_s = \<lparr>name = LEAD_VOCAL, vt_notes = [note_1\<lparr>n_end := 3 / 2, n_lineBreak := True\<rparr>, note_s],
               noteMin = 5, noteMax = 5\<rparr>"

definition parser_s :: SongParser where
  "parser_s = parser0\<lparr>m_prevtime := 3, m_prevts := 6\<rparr>"

text \<open>The parser after a leading SLEEP line \<open>- 5\<close>, which is dropped: in absolute and in
  relative mode.\<close>

definition parser_5 :: SongParser where
  "parser_5 = parser0\<lparr>m_prevtime := 5 / 4, m_prevts := 5\<rparr>"

definition parser_rel_5 :: SongParser where
  "parser_rel_5 = parser_rel\<lparr>m_prevtime := 5 / 4, m_prevts := 5, m_relativeShift := 5\<rparr>"

text \<open>The parser after the header lines \<open>#TITLE:Foo\<close>, \<open>#ARTIST:Bar\<close> and \<open>#BPM:60\<close>, and
  the track of the note lines \<open>: 4 4 5 la\<close> and \<open>: 8 0 0\<close> (a note of length zero).\<close>

definition header_1 :: SongParser where
  "header_1 = header0\<lparr>m_song := song0\<lparr>title := ''Foo'', artist := ''Bar''\<rparr>, m_bpm := 60\<rparr>"

text \<open>The parser after the header lines \<open>#TITLE:Foo\<close>, \<open>#ARTIST:Bar\<close> and \<open>#BPM:-5\<close>.\<close>

definition header_neg :: SongParser where
  "header_neg = header0\<lparr>m_song := song0\<lparr>title := ''Foo'', artist := ''Bar''\<rparr>, m_bpm := - 5\<rparr>"

definition note_2 :: Note where
  "note_2 = \<lparr>n_begin = 2, n_end = 2, n_type = NORMAL, n_note = 0, n_notePrev = 0,
              n_syllable = [], n_lineBreak = False\<rparr>"

definition track_2 :: VocalTrack where
  "track_2 = \<lparr>name = LEAD_VOCAL, vt_notes = [note_1, note_2], noteMin = 5, noteMax = 5\<rparr>"

text \<open>A song with two tracks, neither of them the lead vocal.\<close>

definition song_two :: Song where
  "song_two = insertVocalTrack (insertVocalTrack song0 ''Zed'' (VocalTrack_new ''Zed''))
                ''Harmonic 1'' (VocalTrack_new ''Harmonic 1'')"

section \<open>Properties\<close>

subsection \<open>Rules for evaluating the model\<close>

lemmas lex_defs =
  extract_unsigned_def extract_int_def extract_double_def read_sign_def isspace_def isdigit_def
  decimal_def digit_value_def trim_copy_def str_find_def find_first_not_of_def
  substr_from_first_not_of_def assign_double_def assign_bool_def CR_def LF_def

lemmas tb_defs =
  addBPM_def tsTime_def tick_seconds_def resolution_def Timebase_init_def timebase_60_def
  SongParser_addBPM_def txtParse_bpm_def

lemmas note_defs =
  txtParseNote_def txtParseNote_read_def txtParseNote_place_def txtParseNote_overlap_def
  txtParseNote_seed_def txtParseNote_sleep_def txtParseNote_push_def skip_warning_def
  Note_Type_def Note_new_def VocalTrack_new_def erase_cr_def

lemmas parse_defs =
  txtParse_def txtParseHeader_def txtParseField_def txtParseField_key_def
  insertVocalTrack_def map_erase_def map_find_def LEAD_VOCAL_def

lemmas state_defs =
  song0_def parser0_def parser_rel_def header0_def parser_of_def track_of_def
  note_1_def track_1_def parser_1_def parser_5_def parser_rel_5_def song_two_def
  header_1_def header_neg_def note_2_def track_2_def note_s_def track_s_def parser_s_def

lemmas eval_defs = lex_defs tb_defs note_defs state_defs note_line_def prev_begin_def lead_ok_def

subsection \<open>Formatted extraction\<close>

text \<open>
  The extraction of an \<^verbatim>\<open>unsigned int\<close> on a number, on a negative number, at the end of
  the stream (the variable keeps its value, here 7), on a text with no digit (0 is
  stored) and on a number that is too large (the largest value is stored); and the
  extraction of a \<^verbatim>\<open>double\<close> in fixed and in scientific notation.
\<close>

lemma extract_unsigned_examples:
  "extract_unsigned '' 12 8'' 7 = (12, Some '' 8'')
   \<and> extract_unsigned '' -5'' 7 = (- 5, Some [])
   \<and> extract_unsigned [] 7 = (7, None)
   \<and> extract_unsigned ''  '' 7 = (7, None)
   \<and> extract_unsigned '' x'' 7 = (0, None)
   \<and> extract_unsigned '' 4294967296'' 7 = (word_of_nat (2 ^ 32 - 1), None)"
  by (simp add: lex_defs Let_def)

lemma extract_double_examples:
  "extract_double '' 120'' = Some (120, [])
   \<and> extract_double '' 2.5x'' = Some (5 / 2, ''x'')
   \<and> extract_double ''1e2'' = Some (100, [])
   \<and> extract_double ''-1.5E-1 '' = Some (- (3 / 20), '' '')
   \<and> extract_double ''1e'' = None
   \<and> extract_double ''.'' = None
   \<and> extract_double ''x'' = None"
  by (simp add: lex_defs Let_def)

subsection \<open>The example states are reached\<close>

text \<open>Each example state is what \<^verbatim>\<open>txtParseNote\<close> leaves on the line that its definition names.\<close>

lemma reach_60: "addBPM Timebase_init 0 60 = Inr timebase_60"
  by (simp add: tb_defs)

lemma reach_1:
  "txtParseNote parser0 '': 4 4 5 la'' (VocalTrack_new LEAD_VOCAL) = Inr (True, parser_1, track_1)"
  by (simp add: eval_defs Let_def)

lemma reach_5:
  "txtParseNote parser0 ''- 5'' (VocalTrack_new LEAD_VOCAL)
     = Inr (True, parser_5, VocalTrack_new LEAD_VOCAL)"
  by (simp add: eval_defs Let_def)

lemma reach_rel_5:
  "txtParseNote parser_rel ''- 5'' (VocalTrack_new LEAD_VOCAL)
     = Inr (True, parser_rel_5, VocalTrack_new LEAD_VOCAL)"
  by (simp add: eval_defs Let_def)

lemma reach_s: "txtParseNote parser_1 ''- 6 12'' track_1 = Inr (True, parser_s, track_s)"
  by (simp add: eval_defs Let_def)

text \<open>
  SLEEP lines read after \<open>: 4 4 5 la\<close> (\<open>m_prevts\<close> is 4): with a tick that is no number the
  tick is 0; with no tick at all it is \<open>m_prevts\<close>; with an end that is no number the end
  is the tick.
\<close>

lemma sleep_tick_examples:
  "txtParseNote_read parser_1 ''- x'' = Inr (Note_new\<lparr>n_type := SLEEP, n_end := 0\<rparr>, 0, parser_1)
   \<and> txtParseNote_read parser_1 ''-'' = Inr (Note_new\<lparr>n_type := SLEEP, n_end := 1\<rparr>, 4, parser_1)
   \<and> txtParseNote_read parser_1 ''- 9 x'' = Inr (Note_new\<lparr>n_type := SLEEP, n_end := 9 / 4\<rparr>, 9, parser_1)"
  by (simp add: eval_defs Let_def)

subsection \<open>Timebase\<close>

lemma tsTime_init: "tsTime Timebase_init tick = 0"
  by (simp add: tsTime_def Timebase_init_def)

lemma addBPM_pos: "0 < b \<Longrightarrow> \<exists>tb'. addBPM tb t b = Inr tb'"
  by (simp add: addBPM_def Let_def)

lemma addBPM_refuses: "b \<le> 0 \<Longrightarrow> addBPM tb t b = Inl InvalidBPM"
  by (simp add: addBPM_def)

lemma addBPM_error: "addBPM tb t b = Inl e \<Longrightarrow> e = InvalidBPM"
  by (simp add: addBPM_def Let_def split: if_splits)

lemma SongParser_addBPM_error: "SongParser_addBPM p t b = Inl e \<Longrightarrow> e = InvalidBPM"
  by (auto simp: SongParser_addBPM_def dest: addBPM_error split: sum.splits)

lemma SongParser_addBPM_frame:
  "SongParser_addBPM p t b = Inr p' \<Longrightarrow> \<exists>tb. addBPM (m_bpms p) t b = Inr tb \<and> p' = p\<lparr>m_bpms := tb\<rparr>"
  by (auto simp: SongParser_addBPM_def split: sum.splits)

lemma txtParse_bpm_error: "txtParse_bpm p = Inl e \<Longrightarrow> e = InvalidBPM"
  by (auto simp: txtParse_bpm_def dest: SongParser_addBPM_error split: if_splits)

lemma addBPM_Inr:
  assumes "addBPM tb t b = Inr tb'"
  shows "0 < b" and "active_bpm tb' = b"
    and "changes tb' = changes tb @ [\<lparr>cp_tick = t, cp_bpm = b, cp_offset = offset tb'\<rparr>]"
  using assms by (auto simp: addBPM_def Let_def split: if_splits)

lemma tsTime_addBPM:
  assumes "addBPM tb t b = Inr tb'"
  shows "tsTime tb' x = (if t \<le> x then offset tb' + (real x - real t) * tick_seconds b else tsTime tb x)"
  by (simp add: tsTime_def addBPM_Inr(3) [OF assms])

lemma elapsed_snoc:
  "(case ys @ [z] of [] \<Rightarrow> (0::real) | c # cs \<Rightarrow> f (last (c # cs))) = f z"
  by (cases ys) simp_all

lemma offset_addBPM:
  assumes "tb_inv tb" "last_tick tb \<le> t" "addBPM tb t b = Inr tb'"
  shows "offset tb' = tsTime tb t"
proof (cases "changes tb" rule: rev_cases)
  case Nil
  with assms show ?thesis by (auto simp: tb_inv_def addBPM_def tsTime_def split: if_splits)
next
  case (snoc ys z)
  have e: "(case changes tb of [] \<Rightarrow> (0::real) | c # cs \<Rightarrow> real t - real (cp_tick (last (c # cs))))
             = real t - real (cp_tick z)"
    unfolding snoc by (rule elapsed_snoc)
  have l: "last_tick tb = cp_tick z"
    unfolding last_tick_def snoc by (cases ys) simp_all
  from assms(1) snoc have a: "active_bpm tb = cp_bpm z" "0 < active_bpm tb" "offset tb = cp_offset z"
    by (simp_all add: tb_inv_def)
  have "offset tb' = cp_offset z + (real t - real (cp_tick z)) * tick_seconds (cp_bpm z)"
    using a assms(3) by (auto simp: addBPM_def Let_def e split: if_splits)
  moreover have "tsTime tb t = cp_offset z + (real t - real (cp_tick z)) * tick_seconds (cp_bpm z)"
    using assms(2) l by (simp add: tsTime_def snoc)
  ultimately show ?thesis by simp
qed

lemma last_tick_addBPM: "addBPM tb t b = Inr tb' \<Longrightarrow> last_tick tb' = t"
  by (auto simp: last_tick_def addBPM_def Let_def split: list.splits if_splits)

lemma tick_seconds_pos: "0 < b \<Longrightarrow> 0 < tick_seconds b"
  by (simp add: tick_seconds_def resolution_def)

lemma tb_inv_addBPM:
  assumes inv: "tb_inv tb" and lt: "last_tick tb \<le> t" and r: "addBPM tb t b = Inr tb'"
  shows "tb_inv tb'"
proof -
  note ts = tsTime_addBPM [OF r]
  have pos: "0 < b" by (rule addBPM_Inr(1) [OF r])
  have off: "offset tb' = tsTime tb t" by (rule offset_addBPM [OF inv lt r])
  have mono: "\<And>x y. x \<le> y \<Longrightarrow> tsTime tb x \<le> tsTime tb y" using inv by (simp add: tb_inv_def)
  have nn: "\<And>x. 0 \<le> tsTime tb x" using inv by (simp add: tb_inv_def)
  have sp: "0 < tick_seconds b" by (rule tick_seconds_pos [OF pos])
  have m: "tsTime tb' x \<le> tsTime tb' y" if xy: "x \<le> y" for x y
  proof (cases "t \<le> x")
    case True
    with xy have "t \<le> y" by simp
    moreover have "(real x - real t) * tick_seconds b \<le> (real y - real t) * tick_seconds b"
      using xy sp by (simp add: mult_right_mono)
    ultimately show ?thesis using True by (simp add: ts)
  next
    case False
    show ?thesis
    proof (cases "t \<le> y")
      case True
      have "tsTime tb x \<le> tsTime tb t" using False by (intro mono) simp
      moreover have "0 \<le> (real y - real t) * tick_seconds b" using True sp by simp
      ultimately show ?thesis using False True off by (simp add: ts)
    next
      case F2: False
      then show ?thesis using False xy mono by (simp add: ts)
    qed
  qed
  have n: "0 \<le> tsTime tb' x" for x
  proof (cases "t \<le> x")
    case True
    then have "0 \<le> (real x - real t) * tick_seconds b" using sp by simp
    then show ?thesis using True off nn [of t] by (simp add: ts)
  next
    case False
    then show ?thesis using nn by (simp add: ts)
  qed
  have s: "changes tb' \<noteq> []" "active_bpm tb' = cp_bpm (last (changes tb'))"
    "0 < active_bpm tb'" "offset tb' = cp_offset (last (changes tb'))"
    using pos addBPM_Inr(2,3) [OF r] by simp_all
  show ?thesis unfolding tb_inv_def using s m n by blast
qed

lemma tb_inv_init: "tb_inv Timebase_init"
  by (simp add: tb_inv_def tsTime_init) (simp add: Timebase_init_def)

lemma addBPMs_snoc:
  "addBPMs tb (calls @ [(t, b)]) =
     (case addBPMs tb calls of Inl e \<Rightarrow> Inl e | Inr tb' \<Rightarrow> addBPM tb' t b)"
  by (induction tb calls rule: addBPMs.induct) (simp_all split: sum.splits)

lemma tb_inv_addBPMs:
  "sorted (map fst calls) \<Longrightarrow> list_all (\<lambda>c. 0 < snd c) calls \<Longrightarrow>
     \<exists>tb. addBPMs Timebase_init calls = Inr tb \<and> tb_inv tb
          \<and> last_tick tb = (if calls = [] then 0 else fst (last calls))"
proof (induction calls rule: rev_induct)
  case Nil
  show ?case by (simp add: tb_inv_init) (simp add: last_tick_def Timebase_init_def)
next
  case (snoc c calls)
  obtain t b where c: "c = (t, b)" by (cases c)
  from snoc.prems have srt: "sorted (map fst calls)" and pos: "list_all (\<lambda>c. 0 < snd c) calls"
    and b: "0 < b" and le: "\<forall>x \<in> set calls. fst x \<le> t"
    by (auto simp: c sorted_append)
  from snoc.IH [OF srt pos] obtain tb where r: "addBPMs Timebase_init calls = Inr tb"
    and inv: "tb_inv tb"
    and lt: "last_tick tb = (if calls = [] then 0 else fst (last calls))"
    by blast
  have l: "last_tick tb \<le> t" using lt le by auto
  from addBPM_pos [OF b] obtain tb' where a: "addBPM tb t b = Inr tb'" by blast
  have "addBPMs Timebase_init (calls @ [c]) = Inr tb'" by (simp add: c addBPMs_snoc r a)
  moreover have "tb_inv tb'" by (rule tb_inv_addBPM [OF inv l a])
  moreover have "last_tick tb' = t" by (rule last_tick_addBPM [OF a])
  ultimately show ?case by (simp add: c)
qed

text \<open>
  Claim C4. For any sequence of \<open>addBPM\<close> calls with non-decreasing ticks and positive
  BPM, every call is accepted and \<open>tsTime\<close> is monotonic on the timebase they leave:
  \<open>tsTime a \<le> tsTime b\<close> for all ticks \<open>a \<le> b\<close>; and with no BPM registered, \<open>tsTime 0\<close>
  is 0.
\<close>

theorem tsTime_monotonic:
  assumes "sorted (map fst calls)" and "list_all (\<lambda>c. 0 < snd c) calls" and "a \<le> b"
  shows "(\<exists>tb. addBPMs Timebase_init calls = Inr tb \<and> tsTime tb a \<le> tsTime tb b)
         \<and> tsTime Timebase_init 0 = 0"
  using tb_inv_addBPMs [OF assms(1,2)] assms(3) by (auto simp: tb_inv_def tsTime_init)

text \<open>
  At 120 BPM from tick 0 and 240 BPM from tick 16, tick 16 is at 2 s and tick 32 at 3 s.
\<close>

theorem tsTime_monotonic_witness:
  "sorted (map fst [(0 :: nat, 120 :: real), (16, 240)])
   \<and> list_all (\<lambda>c. 0 < snd c) [(0 :: nat, 120 :: real), (16, 240)]
   \<and> (\<exists>tb. addBPMs Timebase_init [(0, 120), (16, 240)] = Inr tb
         \<and> tsTime tb 16 = 2 \<and> tsTime tb 32 = 3 \<and> tsTime tb 16 \<le> tsTime tb 32)"
  using tsTime_monotonic [of "[(0, 120), (16, 240)]" 16 32]
  by (simp add: tb_defs)

subsection \<open>The field parser\<close>

lemma drop_Suc_takeWhile: "drop (Suc (length (takeWhile P xs))) xs = tl (dropWhile P xs)"
  by (induction xs) simp_all

text \<open>
  Claim C7, as amended. For one line given to the field parser: an empty line (a line of
  no characters) is accepted and leaves the parser and the song as they are; a line that
  is not empty, does not start with \<open>#\<close> and is not a lone carriage return (so also a line
  of spaces or tabs only) makes the parser return false, the state unchanged; a line that
  starts with \<open>#\<close> and holds no colon raises the format error; and a \<open>#\<close> line whose
  value (the text after the first colon) is empty after trimming is accepted and sets no
  field.
\<close>

theorem txtParseField_classify:
  "txtParseField p [] = Inr (True, p)
   \<and> (line \<noteq> [] \<and> line \<noteq> [CR] \<and> hd line \<noteq> CHR ''#'' \<longrightarrow> txtParseField p line = Inr (False, p))
   \<and> (line \<noteq> [] \<and> hd line = CHR ''#'' \<and> CHR '':'' \<notin> set line \<longrightarrow>
        txtParseField p line = Inl (RuntimeError ''Invalid txt format, should be #key:value''))
   \<and> (line \<noteq> [] \<and> hd line = CHR ''#'' \<and> CHR '':'' \<in> set line \<and> trim_copy (after_colon line) = [] \<longrightarrow>
        txtParseField p line = Inr (True, p))"
proof -
  have 1: "txtParseField p [] = Inr (True, p)"
    by (simp add: txtParseField_def)
  have 2: "txtParseField p line = Inr (False, p)" if "line \<noteq> []" "hd line \<noteq> CHR ''#''"
    using that by (simp add: txtParseField_def)
  have 3: "txtParseField p line = Inl (RuntimeError ''Invalid txt format, should be #key:value'')"
    if "line \<noteq> []" "hd line = CHR ''#''" "CHR '':'' \<notin> set line"
    using that by (simp add: txtParseField_def str_find_def)
  have 4: "txtParseField p line = Inr (True, p)"
    if "line \<noteq> []" "hd line = CHR ''#''" "CHR '':'' \<in> set line" "trim_copy (after_colon line) = []"
    using that by (simp add: txtParseField_def str_find_def after_colon_def drop_Suc_takeWhile Let_def)
  from 1 2 3 4 show ?thesis by blast
qed

text \<open>
  The kinds of line, on the example parser: a note line and a line of one space, which
  end the header; a key without a colon; and a key whose value is blank.
\<close>

theorem txtParseField_classify_witness:
  "txtParseField parser0 [] = Inr (True, parser0)
   \<and> txtParseField parser0 '': 0 4 5 la'' = Inr (False, parser0)
   \<and> txtParseField parser0 '' '' = Inr (False, parser0)
   \<and> txtParseField parser0 ''#TITLE'' = Inl (RuntimeError ''Invalid txt format, should be #key:value'')
   \<and> txtParseField parser0 ''#TITLE:  '' = Inr (True, parser0)"
  using txtParseField_classify [of parser0 "'': 0 4 5 la''"]
    txtParseField_classify [of parser0 "'' ''"]
    txtParseField_classify [of parser0 "''#TITLE''"]
    txtParseField_classify [of parser0 "''#TITLE:  ''"]
  by (simp add: after_colon_def trim_copy_def isspace_def CR_def)

text \<open>
  The claim as stated fails for a blank line that is not empty: a line of one space, or
  of one tab, holds white space only, and the field parser returns false on it, which
  ends the header.
\<close>

theorem txtParseField_classify_counterexample:
  "list_all isspace '' '' \<and> txtParseField parser0 '' '' = Inr (False, parser0)
   \<and> list_all isspace [CHR 0x09] \<and> txtParseField parser0 [CHR 0x09] = Inr (False, parser0)"
  by (simp add: txtParseField_def isspace_def)

text \<open>
  A lone carriage return, the empty line of a file with CR LF line ends, is an empty line
  for \<^verbatim>\<open>txtParseNote\<close> and not for \<^verbatim>\<open>txtParseField\<close>, which returns false on it.
\<close>

lemma lone_carriage_return:
  "txtParseField p [CR] = Inr (False, p) \<and> txtParseNote p [CR] vocal = Inr (True, p, vocal)"
  by (simp add: txtParseField_def txtParseNote_def CR_def)

subsection \<open>The track map\<close>

lemma ordered_Cons: "ordered ((k, v) # m) \<longleftrightarrow> (\<forall>e \<in> set m. k < fst e) \<and> ordered m"
  by (auto simp: ordered_def)

lemma ordered_map_erase: "ordered m \<Longrightarrow> ordered (map_erase m k)"
  by (induction m) (auto simp: ordered_def map_erase_def)

lemma set_map_insert: "fst ` set (map_insert m k v) = insert k (fst ` set m)"
  by (induction m k v rule: map_insert.induct) auto

lemma ordered_map_insert: "ordered m \<Longrightarrow> ordered (map_insert m k v)"
proof (induction m)
  case Nil
  show ?case by (simp add: ordered_def)
next
  case (Cons e m)
  obtain k' v' where e: "e = (k', v')" by (cases e)
  from Cons.prems have o: "ordered m" and a: "\<forall>x \<in> set m. k' < fst x"
    by (simp_all add: e ordered_Cons)
  consider "k < k'" | "k = k'" | "k' < k" by (rule less_linear [THEN disjE]) auto
  then show ?case
  proof cases
    case 1
    have "\<forall>x \<in> set (e # m). k < fst x"
      using 1 a by (auto simp: e intro: less_trans)
    then show ?thesis using 1 Cons.prems by (simp add: e ordered_Cons)
  next
    case 2
    then show ?thesis using Cons.prems by (simp add: e)
  next
    case 3
    have "\<forall>x \<in> set (map_insert m k v). k' < fst x"
    proof
      fix x assume "x \<in> set (map_insert m k v)"
      then have "fst x \<in> insert k (fst ` set m)" using set_map_insert [of m k v] by force
      then show "k' < fst x" using 3 a by auto
    qed
    moreover have "ordered (map_insert m k v)" by (rule Cons.IH [OF o])
    moreover have "\<not> k < k'" "k \<noteq> k'" using 3 by auto
    then have "map_insert (e # m) k v = e # map_insert m k v"
      by (simp add: e)
    ultimately show ?thesis by (simp add: e ordered_Cons)
  qed
qed

lemma ordered_insertVocalTrack:
  "ordered (vocalTracks s) \<Longrightarrow> ordered (vocalTracks (insertVocalTrack s k v))"
  by (simp add: insertVocalTrack_def ordered_map_insert ordered_map_erase)

lemma map_find_erase: "map_find (map_erase m k) k' = (if k' = k then None else map_find m k')"
  by (induction m) (auto simp: map_find_def map_erase_def)

lemma map_find_insert:
  "k \<notin> fst ` set m \<Longrightarrow> map_find (map_insert m k v) k' = (if k' = k then Some v else map_find m k')"
  by (induction m k v rule: map_insert.induct) (auto simp: map_find_def)

lemma keys_map_erase: "k \<notin> fst ` set (map_erase m k)"
  by (auto simp: map_erase_def)

lemma map_find_insertVocalTrack:
  "map_find (vocalTracks (insertVocalTrack s k v)) k' =
     (if k' = k then Some v else map_find (vocalTracks s) k')"
  by (simp add: insertVocalTrack_def map_find_insert keys_map_erase map_find_erase)

lemma ordered_hd:
  assumes "ordered m" "m \<noteq> []"
  shows "Min (fst ` set m) = fst (hd m)" and "map_find m (Min (fst ` set m)) = Some (snd (hd m))"
proof -
  obtain k v r where m: "m = (k, v) # r" using assms(2) by (cases m) auto
  with assms(1) have a: "\<forall>e \<in> set r. k < fst e" by (simp add: ordered_Cons)
  have k: "Min (fst ` set m) = k"
    unfolding m by (rule Min_eqI) (use a in \<open>auto simp: less_imp_le\<close>)
  show "Min (fst ` set m) = fst (hd m)" unfolding k by (simp add: m)
  show "map_find m (Min (fst ` set m)) = Some (snd (hd m))" unfolding k by (simp add: m map_find_def)
qed

text \<open>
  Claim C10. For every song and every requested track name, \<open>getVocalTrack\<close> returns the
  track under exactly that name when there is one; otherwise the track named
  \<open>LEAD_VOCAL\<close> when there is one; otherwise the first entry of the track map (the entry
  with the least name) when the map is not empty; otherwise the dummy track. The keys
  of the map are in ascending order (\<open>ordered\<close>), which \<open>insertVocalTrack\<close> keeps
  (\<open>ordered_insertVocalTrack\<close>).
\<close>

theorem getVocalTrack_chain:
  assumes "ordered (vocalTracks s)"
  shows "(\<forall>t. map_find (vocalTracks s) vocalTrack = Some t \<longrightarrow> getVocalTrack s vocalTrack = t)
       \<and> (\<forall>t. map_find (vocalTracks s) vocalTrack = None \<and> map_find (vocalTracks s) LEAD_VOCAL = Some t \<longrightarrow>
              getVocalTrack s vocalTrack = t)
       \<and> (map_find (vocalTracks s) vocalTrack = None \<and> map_find (vocalTracks s) LEAD_VOCAL = None
            \<and> vocalTracks s \<noteq> [] \<longrightarrow>
              getVocalTrack s vocalTrack = snd (hd (vocalTracks s))
              \<and> fst (hd (vocalTracks s)) = Min (fst ` set (vocalTracks s))
              \<and> map_find (vocalTracks s) (Min (fst ` set (vocalTracks s))) = Some (getVocalTrack s vocalTrack))
       \<and> (vocalTracks s = [] \<longrightarrow> getVocalTrack s vocalTrack = dummyVocal s)"
proof -
  have 1: "getVocalTrack s vocalTrack = t" if "map_find (vocalTracks s) vocalTrack = Some t" for t
    using that by (simp add: getVocalTrack_def)
  have 2: "getVocalTrack s vocalTrack = t"
    if "map_find (vocalTracks s) vocalTrack = None" "map_find (vocalTracks s) LEAD_VOCAL = Some t" for t
    using that by (simp add: getVocalTrack_def)
  have 3: "getVocalTrack s vocalTrack = snd (hd (vocalTracks s))
              \<and> fst (hd (vocalTracks s)) = Min (fst ` set (vocalTracks s))
              \<and> map_find (vocalTracks s) (Min (fst ` set (vocalTracks s))) = Some (getVocalTrack s vocalTrack)"
    if n: "map_find (vocalTracks s) vocalTrack = None" "map_find (vocalTracks s) LEAD_VOCAL = None"
      and ne: "vocalTracks s \<noteq> []"
  proof -
    have g: "getVocalTrack s vocalTrack = snd (hd (vocalTracks s))"
      using n ne by (cases "vocalTracks s") (simp_all add: getVocalTrack_def)
    from ordered_hd [OF assms ne] g show ?thesis by simp
  qed
  have 4: "getVocalTrack s vocalTrack = dummyVocal s" if "vocalTracks s = []"
    using that by (simp add: getVocalTrack_def map_find_def)
  from 1 2 3 4 show ?thesis by blast
qed

text \<open>
  In a song with the tracks "Harmonic 1" and "Zed", the request for "Guitar" finds neither
  that name nor the lead vocal, and the first entry, "Harmonic 1", is returned; the
  request for "Zed" returns that track; and a song with no track returns the dummy.
\<close>

theorem getVocalTrack_chain_witness:
  "ordered (vocalTracks song_two)
   \<and> vocalTracks song_two \<noteq> []
   \<and> map_find (vocalTracks song_two) ''Guitar'' = None
   \<and> map_find (vocalTracks song_two) LEAD_VOCAL = None
   \<and> Min (fst ` set (vocalTracks song_two)) = ''Harmonic 1''
   \<and> getVocalTrack song_two ''Guitar'' = VocalTrack_new ''Harmonic 1''
   \<and> getVocalTrack song_two ''Zed'' = VocalTrack_new ''Zed''
   \<and> getVocalTrack song0 ''Zed'' = dummyVocal song0"
proof -
  have v: "vocalTracks song_two =
             [(''Harmonic 1'', VocalTrack_new ''Harmonic 1''), (''Zed'', VocalTrack_new ''Zed'')]"
    by (simp add: song_two_def song0_def insertVocalTrack_def map_erase_def)
  have o: "ordered (vocalTracks song_two)" by (simp add: v ordered_def)
  have o0: "ordered (vocalTracks song0)" by (simp add: song0_def ordered_def)
  have e0: "vocalTracks song0 = []" by (simp add: song0_def)
  have m: "Min (fst ` set (vocalTracks song_two)) = ''Harmonic 1''" by (simp add: v)
  have f: "map_find (vocalTracks song_two) ''Guitar'' = None"
    "map_find (vocalTracks song_two) LEAD_VOCAL = None"
    "map_find (vocalTracks song_two) ''Zed'' = Some (VocalTrack_new ''Zed'')"
    by (simp_all add: v map_find_def LEAD_VOCAL_def)
  have ne: "vocalTracks song_two \<noteq> []" by (simp add: v)
  have h: "snd (hd (vocalTracks song_two)) = VocalTrack_new ''Harmonic 1''" by (simp add: v)
  from getVocalTrack_chain [OF o, of "''Guitar''"] getVocalTrack_chain [OF o, of "''Zed''"]
    getVocalTrack_chain [OF o0, of "''Zed''"] o m f ne e0 h
  show ?thesis by simp
qed

subsection \<open>The parts of \<^verbatim>\<open>txtParseNote\<close>\<close>

lemma txtParseNote_note_line:
  "note_line line \<Longrightarrow>
     txtParseNote p line vocal =
       (case txtParseNote_read p (erase_cr line) of
          Inl e \<Rightarrow> Inl e
        | Inr (n, ts, p') \<Rightarrow> txtParseNote_place p' vocal n ts)"
  by (simp add: txtParseNote_def note_line_def Let_def)

lemma read_frame:
  assumes "txtParseNote_read p l = Inr (n, ts, p')"
  shows "m_song p' = m_song p \<and> m_prevtime p' = m_prevtime p \<and> m_bpms p' = m_bpms p
         \<and> m_relative p' = m_relative p \<and> cout p' = cout p"
  using assms unfolding txtParseNote_read_def Let_def
  by (auto split: option.splits NoteType.splits if_splits prod.splits)

lemma lead_ok_len: "lead_ok ns \<Longrightarrow> ns \<noteq> [] \<Longrightarrow> n_type (last ns) = SLEEP \<Longrightarrow> 2 \<le> length ns"
  by (cases ns; cases "tl ns") (auto simp: lead_ok_def)

lemma sleep_result:
  assumes "ns \<noteq> []" "lead_ok ns"
  shows "\<exists>q. txtParseNote_sleep ns b = Inr (butlast ns @ [q]) \<and> n_type q = n_type (last ns)
             \<and> n_begin q = prev_begin ns b \<and> n_lineBreak q = n_lineBreak (last ns)"
proof (cases "n_type (last ns) = SLEEP")
  case True
  then have "\<not> length ns < 2" using lead_ok_len [OF assms(2,1)] by simp
  then show ?thesis using True
    by (simp add: txtParseNote_sleep_def prev_begin_def Let_def)
next
  case False
  then show ?thesis using assms(1)
    by (intro exI [of _ "last ns"]) (simp add: txtParseNote_sleep_def prev_begin_def Let_def)
qed

lemma overlap_none:
  "\<not> n_begin n < m_prevtime p \<Longrightarrow> txtParseNote_overlap p ns n = Inr (False, ns, p)"
  by (simp add: txtParseNote_overlap_def)

lemma overlap_empty:
  "n_begin n < m_prevtime p \<Longrightarrow>
     txtParseNote_overlap p [] n = Inl (RuntimeError ''The first note has negative timestamp'')"
  by (simp add: txtParseNote_overlap_def)

lemma overlap_trim:
  assumes "n_begin n < m_prevtime p" "ns \<noteq> []" "lead_ok ns" "prev_begin ns (n_begin n) \<le> n_begin n"
  shows "\<exists>q. txtParseNote_overlap p ns n = Inr (False, butlast ns @ [q], p)
             \<and> n_type q = n_type (last ns) \<and> n_end q = n_begin n
             \<and> n_lineBreak q = n_lineBreak (last ns)"
proof -
  from sleep_result [OF assms(2,3), of "n_begin n"] obtain q where
    q: "txtParseNote_sleep ns (n_begin n) = Inr (butlast ns @ [q])" "n_type q = n_type (last ns)"
       "n_begin q = prev_begin ns (n_begin n)" "n_lineBreak q = n_lineBreak (last ns)"
    by blast
  have "txtParseNote_overlap p ns n = Inr (False, butlast ns @ [q\<lparr>n_end := n_begin n\<rparr>], p)"
    using assms(1,2,4) q(1,3) by (simp add: txtParseNote_overlap_def Let_def Suc_le_eq)
  then show ?thesis using q(2,4) by (intro exI [of _ "q\<lparr>n_end := n_begin n\<rparr>"]) simp
qed

lemma overlap_skip:
  assumes "n_begin n < m_prevtime p" "ns \<noteq> []" "lead_ok ns" "n_begin n < prev_begin ns (n_begin n)"
  shows "\<exists>q. txtParseNote_overlap p ns n =
               Inr (True, butlast ns @ [q],
                    p\<lparr>cout := cout p @ [skip_warning (m_song p)]\<rparr>)
             \<and> n_type q = n_type (last ns) \<and> n_lineBreak q = n_lineBreak (last ns)"
proof -
  from sleep_result [OF assms(2,3), of "n_begin n"] obtain q where
    q: "txtParseNote_sleep ns (n_begin n) = Inr (butlast ns @ [q])" "n_type q = n_type (last ns)"
       "n_begin q = prev_begin ns (n_begin n)" "n_lineBreak q = n_lineBreak (last ns)"
    by blast
  show ?thesis
    using assms(1,2,4) q by (simp add: txtParseNote_overlap_def Let_def Suc_le_eq)
qed

lemma push_sleep_empty:
  "n_type n = SLEEP \<Longrightarrow> vt_notes vocal = [] \<Longrightarrow>
     txtParseNote_push p vocal n = (True, p\<lparr>m_prevtime := n_end n\<rparr>, vocal)"
  by (simp add: txtParseNote_push_def Let_def)

lemma push_sleep:
  "n_type n = SLEEP \<Longrightarrow> vt_notes vocal \<noteq> [] \<Longrightarrow>
     txtParseNote_push p vocal n =
       (True, p\<lparr>m_prevtime := n_end n\<rparr>,
        vocal\<lparr>vt_notes := butlast (vt_notes vocal) @ [(last (vt_notes vocal))\<lparr>n_lineBreak := True\<rparr>]
                   @ [n\<lparr>n_begin := m_prevtime p, n_end := m_prevtime p\<rparr>]\<rparr>)"
  by (simp add: txtParseNote_push_def Let_def)

lemma push_note:
  "n_type n \<noteq> SLEEP \<Longrightarrow>
     \<exists>vocal'. txtParseNote_push p vocal n = (True, p\<lparr>m_prevtime := n_end n\<rparr>, vocal')
              \<and> vt_notes vocal' = vt_notes vocal @ [n]"
  by (simp add: txtParseNote_push_def Let_def)

subsection \<open>The lookback of the overlap recovery\<close>

lemma lead_ok_snoc: "ns \<noteq> [] \<Longrightarrow> lead_ok (ns @ r) = lead_ok ns"
  by (cases ns) (simp_all add: lead_ok_def)

lemma lead_ok_butlast_snoc:
  assumes "ns \<noteq> []" "lead_ok ns" "n_type q = n_type (last ns)"
  shows "lead_ok (butlast ns @ [q])"
proof (cases ns rule: rev_cases)
  case Nil
  with assms(1) show ?thesis by simp
next
  case (snoc ys z)
  then show ?thesis using assms(2,3) by (cases ys) (simp_all add: lead_ok_def)
qed

lemma overlap_cases:
  assumes "lead_ok ns"
  shows "txtParseNote_overlap p ns n = Inl (RuntimeError ''The first note has negative timestamp'')
         \<or> (\<exists>skip ns' p'. txtParseNote_overlap p ns n = Inr (skip, ns', p')
               \<and> lead_ok ns')"
proof (cases "n_begin n < m_prevtime p")
  case False
  then show ?thesis using assms by (auto simp: overlap_none)
next
  case True
  show ?thesis
  proof (cases "ns = []")
    case e: True
    then show ?thesis using True by (simp add: overlap_empty)
  next
    case ne: False
    show ?thesis
    proof (cases "prev_begin ns (n_begin n) \<le> n_begin n")
      case t: True
      from overlap_trim [OF True ne assms t] obtain q where
        "txtParseNote_overlap p ns n = Inr (False, butlast ns @ [q], p)" "n_type q = n_type (last ns)"
        by blast
      then show ?thesis using lead_ok_butlast_snoc [OF ne assms] by auto
    next
      case f: False
      then have "n_begin n < prev_begin ns (n_begin n)" by simp
      from overlap_skip [OF True ne assms this] obtain q where
        "txtParseNote_overlap p ns n =
               Inr (True, butlast ns @ [q],
                    p\<lparr>cout := cout p @ [skip_warning (m_song p)]\<rparr>)"
        "n_type q = n_type (last ns)"
        by blast
      then show ?thesis using lead_ok_butlast_snoc [OF ne assms] by auto
    qed
  qed
qed

lemma push_lead_ok:
  assumes "lead_ok (vt_notes vocal)" "txtParseNote_push p vocal n = (c, p', vocal')"
  shows "lead_ok (vt_notes vocal')"
proof (cases "n_type n = SLEEP")
  case True
  show ?thesis
  proof (cases "vt_notes vocal = []")
    case e: True
    then show ?thesis using assms True by (simp add: push_sleep_empty)
  next
    case ne: False
    let ?ns = "butlast (vt_notes vocal) @ [(last (vt_notes vocal))\<lparr>n_lineBreak := True\<rparr>]"
    have "lead_ok ?ns"
      by (rule lead_ok_butlast_snoc [OF ne assms(1)]) simp
    then have "lead_ok (?ns @ [n\<lparr>n_begin := m_prevtime p, n_end := m_prevtime p\<rparr>])"
      by (subst lead_ok_snoc) simp_all
    then show ?thesis using assms(2) True ne by (auto simp: push_sleep)
  qed
next
  case False
  from push_note [OF False, of p vocal] assms(2) have v: "vt_notes vocal' = vt_notes vocal @ [n]"
    by auto
  show ?thesis
  proof (cases "vt_notes vocal = []")
    case True
    then show ?thesis using v False by (simp add: lead_ok_def)
  next
    case ne: False
    then show ?thesis using v assms(1) by (simp add: lead_ok_snoc)
  qed
qed

lemma seed_frame:
  "m_song (txtParseNote_seed p vocal ts) = m_song p
   \<and> m_prevtime (txtParseNote_seed p vocal ts) = m_prevtime p
   \<and> m_bpms (txtParseNote_seed p vocal ts) = m_bpms p
   \<and> cout (txtParseNote_seed p vocal ts) = cout p
   \<and> m_relativeShift (txtParseNote_seed p vocal ts) =
        (if m_relative p \<and> vt_notes vocal = [] then ts else m_relativeShift p)"
  by (simp add: txtParseNote_seed_def)

lemma place_unfold:
  "txtParseNote_place p vocal n ts =
     (case txtParseNote_overlap (txtParseNote_seed p vocal ts) (vt_notes vocal)
             (n\<lparr>n_begin := tsTime (m_bpms p) (unat ts)\<rparr>) of
           Inl e \<Rightarrow> Inl e
         | Inr (skip, ns, p') \<Rightarrow>
             if skip then Inr (True, p', vocal\<lparr>vt_notes := ns\<rparr>)
             else Inr (txtParseNote_push p' (vocal\<lparr>vt_notes := ns\<rparr>)
                        (n\<lparr>n_begin := tsTime (m_bpms p) (unat ts)\<rparr>)))"
  by (simp add: txtParseNote_place_def Let_def)

lemma place_lead_ok:
  assumes "lead_ok (vt_notes vocal)"
  shows "txtParseNote_place p vocal n ts \<noteq> Inl UndefinedBehaviour
         \<and> (\<forall>c p' vocal'. txtParseNote_place p vocal n ts = Inr (c, p', vocal') \<longrightarrow> lead_ok (vt_notes vocal'))"
proof -
  let ?n = "n\<lparr>n_begin := tsTime (m_bpms p) (unat ts)\<rparr>"
  let ?p = "txtParseNote_seed p vocal ts"
  note pl = place_unfold [of p vocal n ts]
  from overlap_cases [OF assms, of ?p ?n]
  consider (err) "txtParseNote_overlap ?p (vt_notes vocal) ?n = Inl (RuntimeError ''The first note has negative timestamp'')"
    | (ok) skip ns' p' where "txtParseNote_overlap ?p (vt_notes vocal) ?n = Inr (skip, ns', p')" "lead_ok ns'"
    by blast
  then show ?thesis
  proof cases
    case err
    then show ?thesis by (simp add: pl)
  next
    case ok
    show ?thesis
    proof (cases skip)
      case True
      then show ?thesis using ok by (simp add: pl)
    next
      case False
      obtain c q v where r: "txtParseNote_push p' (vocal\<lparr>vt_notes := ns'\<rparr>) ?n = (c, q, v)"
        by (cases "txtParseNote_push p' (vocal\<lparr>vt_notes := ns'\<rparr>) ?n") auto
      have "lead_ok (vt_notes v)" by (rule push_lead_ok [OF _ r]) (simp add: ok)
      then show ?thesis using ok False r by (simp add: pl)
    qed
  qed
qed

lemma read_no_ub: "txtParseNote_read p l \<noteq> Inl UndefinedBehaviour"
  unfolding txtParseNote_read_def Let_def
  by (auto split: option.splits NoteType.splits if_splits prod.splits)

lemma txtParseNote_lead_ok:
  assumes "lead_ok (vt_notes vocal)"
  shows "txtParseNote p line vocal \<noteq> Inl UndefinedBehaviour
         \<and> (\<forall>c p' vocal'. txtParseNote p line vocal = Inr (c, p', vocal') \<longrightarrow> lead_ok (vt_notes vocal'))"
proof (cases "note_line line")
  case True
  show ?thesis
  proof (cases "txtParseNote_read p (erase_cr line)")
    case (Inl e)
    then show ?thesis using read_no_ub [of p "erase_cr line"] by (simp add: txtParseNote_note_line [OF True])
  next
    case (Inr x)
    obtain n ts p1 where x: "x = (n, ts, p1)" by (cases x)
    show ?thesis using place_lead_ok [OF assms, of p1 n ts] Inr x
      by (simp add: txtParseNote_note_line [OF True])
  qed
next
  case False
  then show ?thesis using assms
    by (auto simp: txtParseNote_def note_line_def Let_def
          dest: SongParser_addBPM_error split: option.splits if_splits prod.splits sum.splits)
qed

lemma txtParseNotes_no_ub:
  "lead_ok (vt_notes vocal) \<Longrightarrow> txtParseNotes ls line p vocal \<noteq> Inl UndefinedBehaviour"
proof (induction ls arbitrary: line p vocal)
  case Nil
  then show ?case using txtParseNote_lead_ok [OF Nil, of p line]
    by (auto split: sum.splits)
next
  case (Cons l ls)
  show ?case
  proof (cases "txtParseNote p line vocal")
    case (Inl e)
    then show ?thesis using txtParseNote_lead_ok [OF Cons.prems, of p line] by simp
  next
    case (Inr x)
    obtain c p' vocal' where x: "x = (c, p', vocal')" by (cases x)
    then have "lead_ok (vt_notes vocal')" using txtParseNote_lead_ok [OF Cons.prems, of p line] Inr by simp
    then have "txtParseNotes ls l p' vocal' \<noteq> Inl UndefinedBehaviour" by (rule Cons.IH)
    then show ?thesis using Inr x by simp
  qed
qed

lemma substr_error: "substr_from_first_not_of s cs = Inl e \<Longrightarrow> e = OutOfRange"
  by (simp add: substr_from_first_not_of_def split: option.splits)

lemma assign_double_error: "assign_double s = Inl e \<Longrightarrow> e = AssignError s"
  by (auto simp: assign_double_def split: option.splits if_splits)

lemma assign_bool_error: "assign_bool s = Inl e \<Longrightarrow> e = AssignError s"
  by (auto simp: assign_bool_def split: option.splits if_splits)

lemma txtParseField_key_error:
  "txtParseField_key p key val = Inl e \<Longrightarrow> e = OutOfRange \<or> e = AssignError val"
  unfolding txtParseField_key_def Let_def
  by (auto split: if_splits sum.splits dest!: substr_error assign_double_error assign_bool_error)

lemma txtParseField_no_ub: "txtParseField p l \<noteq> Inl UndefinedBehaviour"
proof
  assume "txtParseField p l = Inl UndefinedBehaviour"
  then show False
    unfolding txtParseField_def Let_def
    by (auto split: option.splits if_splits dest!: txtParseField_key_error)
qed

lemma txtParseFields_no_ub: "txtParseFields ls l p \<noteq> Inl UndefinedBehaviour"
proof (induction ls arbitrary: l p)
  case Nil
  show ?case by simp
next
  case (Cons a ls)
  show ?case
  proof (cases "txtParseField p a")
    case (Inl e)
    then show ?thesis using txtParseField_no_ub [of p a] by simp
  next
    case (Inr x)
    obtain c q where "x = (c, q)" by (cases x)
    with Inr Cons.IH [of a q] show ?thesis by simp
  qed
qed

lemma txtParseNotes_lead_ok:
  "lead_ok (vt_notes vocal) \<Longrightarrow> txtParseNotes ls line p vocal = Inr (ls', p', vocal') \<Longrightarrow>
     lead_ok (vt_notes vocal')"
proof (induction ls arbitrary: line p vocal)
  case Nil
  then show ?case using txtParseNote_lead_ok [OF Nil(1), of p line]
    by (auto split: sum.splits if_splits)
next
  case (Cons l ls)
  show ?case
  proof (cases "txtParseNote p line vocal")
    case (Inl e)
    then show ?thesis using Cons.prems(2) by simp
  next
    case (Inr x)
    obtain c q v where x: "x = (c, q, v)" by (cases x)
    then have ok: "lead_ok (vt_notes v)" using txtParseNote_lead_ok [OF Cons.prems(1), of p line] Inr by simp
    show ?thesis
    proof (cases c)
      case True
      then have "txtParseNotes ls l q v = Inr (ls', p', vocal')" using Cons.prems(2) Inr x by simp
      from Cons.IH [OF ok this] show ?thesis .
    next
      case False
      then have "vocal' = v" using Cons.prems(2) Inr x by simp
      then show ?thesis using ok by simp
    qed
  qed
qed

text \<open>
  Claim C6. In every run of the note loop over a new track, and so in every run of
  \<^verbatim>\<open>txtParse\<close>, whatever the lines, the inspection of the note two positions back in the
  overlap recovery only reads an existing element: the outcome \<open>UndefinedBehaviour\<close> of a
  read outside the sequence never occurs. (A sequence never starts with a SLEEP, so one
  of exactly one note does not end in a SLEEP and the lookback is not run on it.)
\<close>

theorem lookback_in_range:
  "txtParseNotes ls line p (VocalTrack_new nm) \<noteq> Inl UndefinedBehaviour
   \<and> txtParse ls p \<noteq> Inl UndefinedBehaviour"
proof -
  have n: "txtParseNotes ls' l q (VocalTrack_new nm') \<noteq> Inl UndefinedBehaviour" for ls' l q nm'
    by (rule txtParseNotes_no_ub) (simp add: VocalTrack_new_def lead_ok_def)
  have "txtParse ls p \<noteq> Inl UndefinedBehaviour"
  proof (cases "txtParseFields ls [] p")
    case (Inl e)
    then show ?thesis using txtParseFields_no_ub [of ls "[]" p] by (simp add: txtParse_def)
  next
    case (Inr x)
    obtain ls1 l p1 where x: "x = (ls1, l, p1)" by (cases x)
    show ?thesis
    proof (cases "txtParse_bpm p1")
      case b: (Inl e)
      then have "e \<noteq> UndefinedBehaviour"
        by (auto dest: txtParse_bpm_error)
      then show ?thesis using Inr x b by (simp add: txtParse_def Let_def)
    next
      case b: (Inr q)
      from n [of ls1 l q LEAD_VOCAL] Inr x b show ?thesis
        by (auto simp: txtParse_def Let_def simp del: txtParseNotes.simps split: sum.splits)
    qed
  qed
  with n show ?thesis by simp
qed

text \<open>
  A run that takes the lookback with exactly two notes in the sequence: after the lines
  \<open>: 4 4 5 la\<close> and \<open>- 6 12\<close> the line \<open>: 7 1 0 x\<close> begins (1.75 s) before \<open>m_prevtime\<close> (3 s),
  the previous note is a SLEEP, and the note before it ends at 1.5 s, so the SLEEP is
  moved to 1.75 s and the new note is accepted.
\<close>

theorem lookback_in_range_witness:
  "txtParseNotes [''- 6 12'', '': 7 1 0 x''] '': 4 4 5 la'' parser0 (VocalTrack_new LEAD_VOCAL)
     \<noteq> Inl UndefinedBehaviour
   \<and> txtParseNote parser0 '': 4 4 5 la'' (VocalTrack_new LEAD_VOCAL) = Inr (True, parser_1, track_1)
   \<and> txtParseNote parser_1 ''- 6 12'' track_1 = Inr (True, parser_s, track_s)
   \<and> map n_type (vt_notes track_s) = [NORMAL, SLEEP]
   \<and> map_option (map n_begin \<circ> vt_notes) (track_of (txtParseNote parser_s '': 7 1 0 x'' track_s))
        = Some [1, 7 / 4, 7 / 4]
   \<and> map_option (map n_begin \<circ> vt_notes)
        (track_of (txtParseNotes [''- 6 12'', '': 7 1 0 x''] '': 4 4 5 la'' parser0 (VocalTrack_new LEAD_VOCAL)))
        = Some [1, 7 / 4, 7 / 4]"
  using lookback_in_range [of "[''- 6 12'', '': 7 1 0 x'']" "'': 4 4 5 la''" parser0 LEAD_VOCAL]
  by (simp add: eval_defs Let_def)

subsection \<open>Accepted and skipped notes\<close>

lemma push_snoc:
  "\<exists>vocal'. txtParseNote_push p (vocal\<lparr>vt_notes := bl @ [q]\<rparr>) n = (True, p\<lparr>m_prevtime := n_end n\<rparr>, vocal')
     \<and> vt_notes vocal' =
          bl @ (if n_type n = SLEEP
                then [q\<lparr>n_lineBreak := True\<rparr>, n\<lparr>n_begin := m_prevtime p, n_end := m_prevtime p\<rparr>]
                else [q, n])"
  by (simp add: txtParseNote_push_def Let_def)

lemma prev_begin_le: "n_begin (last ns) \<le> b \<Longrightarrow> prev_begin ns b \<le> b"
  by (simp add: prev_begin_def)

lemma place_trim:
  assumes ov: "tsTime (m_bpms p) (unat ts) < m_prevtime p"
    and ne: "vt_notes vocal \<noteq> []"
    and ok: "lead_ok (vt_notes vocal)"
    and le: "prev_begin (vt_notes vocal) (tsTime (m_bpms p) (unat ts)) \<le> tsTime (m_bpms p) (unat ts)"
  shows "\<exists>q vocal'. txtParseNote_place p vocal n ts =
             Inr (True, (txtParseNote_seed p vocal ts)\<lparr>m_prevtime := n_end n\<rparr>, vocal')
           \<and> n_end q = tsTime (m_bpms p) (unat ts)
           \<and> vt_notes vocal' = butlast (vt_notes vocal) @
                (if n_type n = SLEEP
                 then [q\<lparr>n_lineBreak := True\<rparr>, n\<lparr>n_begin := m_prevtime p, n_end := m_prevtime p\<rparr>]
                 else [q, n\<lparr>n_begin := tsTime (m_bpms p) (unat ts)\<rparr>])"
proof -
  let ?b = "tsTime (m_bpms p) (unat ts)"
  let ?n = "n\<lparr>n_begin := ?b\<rparr>"
  let ?p = "txtParseNote_seed p vocal ts"
  have pt: "m_prevtime ?p = m_prevtime p" by (simp add: seed_frame)
  have "n_begin ?n < m_prevtime ?p" using ov pt by simp
  moreover have "prev_begin (vt_notes vocal) (n_begin ?n) \<le> n_begin ?n" using le by simp
  ultimately obtain q where
    o: "txtParseNote_overlap ?p (vt_notes vocal) ?n = Inr (False, butlast (vt_notes vocal) @ [q], ?p)"
    and q: "n_end q = n_begin ?n"
    using overlap_trim [OF _ ne ok, of ?n ?p] by blast
  from push_snoc [where p = ?p and vocal = vocal and bl = "butlast (vt_notes vocal)" and q = q and n = ?n]
  obtain vocal' where
    v: "txtParseNote_push ?p (vocal\<lparr>vt_notes := butlast (vt_notes vocal) @ [q]\<rparr>) ?n
          = (True, ?p\<lparr>m_prevtime := n_end ?n\<rparr>, vocal')"
    "vt_notes vocal' = butlast (vt_notes vocal) @
          (if n_type ?n = SLEEP
           then [q\<lparr>n_lineBreak := True\<rparr>, ?n\<lparr>n_begin := m_prevtime ?p, n_end := m_prevtime ?p\<rparr>]
           else [q, ?n])"
    by blast
  have "txtParseNote_place p vocal n ts = Inr (True, ?p\<lparr>m_prevtime := n_end n\<rparr>, vocal')"
    using o v(1) by (simp add: place_unfold)
  moreover have "n_end q = ?b" using q by simp
  moreover have "vt_notes vocal' = butlast (vt_notes vocal) @
                (if n_type n = SLEEP
                 then [q\<lparr>n_lineBreak := True\<rparr>, n\<lparr>n_begin := m_prevtime p, n_end := m_prevtime p\<rparr>]
                 else [q, ?n])"
    using v(2) pt by simp
  ultimately show ?thesis by blast
qed

lemma place_plain:
  assumes "\<not> tsTime (m_bpms p) (unat ts) < m_prevtime p"
  shows "txtParseNote_place p vocal n ts =
           Inr (txtParseNote_push (txtParseNote_seed p vocal ts) vocal
                  (n\<lparr>n_begin := tsTime (m_bpms p) (unat ts)\<rparr>))"
proof -
  have "\<not> n_begin (n\<lparr>n_begin := tsTime (m_bpms p) (unat ts)\<rparr>) < m_prevtime (txtParseNote_seed p vocal ts)"
    using assms by (simp add: seed_frame)
  from overlap_none [OF this] show ?thesis by (simp add: place_unfold)
qed

lemma place_skip:
  assumes ov: "tsTime (m_bpms p) (unat ts) < m_prevtime p"
    and ne: "vt_notes vocal \<noteq> []"
    and ok: "lead_ok (vt_notes vocal)"
    and gt: "tsTime (m_bpms p) (unat ts) < prev_begin (vt_notes vocal) (tsTime (m_bpms p) (unat ts))"
  shows "\<exists>q. txtParseNote_place p vocal n ts =
             Inr (True,
                  (txtParseNote_seed p vocal ts)
                    \<lparr>cout := cout p @ [skip_warning (m_song p)]\<rparr>,
                  vocal\<lparr>vt_notes := butlast (vt_notes vocal) @ [q]\<rparr>)
           \<and> n_lineBreak q = n_lineBreak (last (vt_notes vocal))"
proof -
  let ?b = "tsTime (m_bpms p) (unat ts)"
  let ?n = "n\<lparr>n_begin := ?b\<rparr>"
  let ?p = "txtParseNote_seed p vocal ts"
  have "n_begin ?n < m_prevtime ?p" using ov by (simp add: seed_frame)
  moreover have "n_begin ?n < prev_begin (vt_notes vocal) (n_begin ?n)" using gt by simp
  ultimately obtain q where
    "txtParseNote_overlap ?p (vt_notes vocal) ?n =
       Inr (True, butlast (vt_notes vocal) @ [q],
            ?p\<lparr>cout := cout ?p @ [skip_warning (m_song ?p)]\<rparr>)"
    "n_lineBreak q = n_lineBreak (last (vt_notes vocal))"
    using overlap_skip [OF _ ne ok, of ?n ?p] by blast
  then show ?thesis by (intro exI [of _ q]) (simp add: place_unfold seed_frame)
qed

lemma place_empty_overlap:
  assumes "tsTime (m_bpms p) (unat ts) < m_prevtime p" "vt_notes vocal = []"
  shows "txtParseNote_place p vocal n ts = Inl (RuntimeError ''The first note has negative timestamp'')"
proof -
  have "n_begin (n\<lparr>n_begin := tsTime (m_bpms p) (unat ts)\<rparr>) < m_prevtime (txtParseNote_seed p vocal ts)"
    using assms(1) by (simp add: seed_frame)
  from overlap_empty [OF this] show ?thesis using assms(2) by (simp add: place_unfold)
qed

lemma txtParseNote_read_place:
  assumes "note_line line" "txtParseNote_read p (erase_cr line) = Inr (n, ts, p1)"
  shows "txtParseNote p line vocal = txtParseNote_place p1 vocal n ts"
  using assms by (simp add: txtParseNote_note_line)

subsection \<open>Overlap trimming\<close>

text \<open>
  Claim C1, as amended. For every parsed note line whose begin-time is earlier than
  \<open>m_prevtime\<close>, when the track has a previous note whose begin is at most the new note's
  begin: no error is raised, the line is accepted (the result is true and one note is
  appended), the end of the previous note is the new note's begin, and the song's
  \<open>b0rkedTracks\<close> flag is left as it was. The note sequence is one that does not start
  with a SLEEP (\<open>lead_ok\<close>), as every sequence the note loop builds (\<open>txtParseNotes_lead_ok\<close>).
\<close>

theorem overlap_trimmed:
  assumes nl: "note_line line"
    and rd: "txtParseNote_read p (erase_cr line) = Inr (n, ts, p1)"
    and ov: "tsTime (m_bpms p) (unat ts) < m_prevtime p"
    and ne: "vt_notes vocal \<noteq> []"
    and ok: "lead_ok (vt_notes vocal)"
    and le: "n_begin (last (vt_notes vocal)) \<le> tsTime (m_bpms p) (unat ts)"
  shows "\<exists>p' vocal'. txtParseNote p line vocal = Inr (True, p', vocal')
           \<and> length (vt_notes vocal') = Suc (length (vt_notes vocal))
           \<and> n_end (vt_notes vocal' ! (length (vt_notes vocal) - 1)) = tsTime (m_bpms p) (unat ts)
           \<and> b0rkedTracks (m_song p') = b0rkedTracks (m_song p)"
proof -
  from read_frame [OF rd] have f: "m_song p1 = m_song p" "m_prevtime p1 = m_prevtime p" "m_bpms p1 = m_bpms p"
    by simp_all
  let ?b = "tsTime (m_bpms p) (unat ts)"
  have "prev_begin (vt_notes vocal) ?b \<le> ?b" by (rule prev_begin_le [OF le])
  with place_trim [of p1 ts vocal n] ov ne ok f obtain q vocal' where
    r: "txtParseNote_place p1 vocal n ts = Inr (True, (txtParseNote_seed p1 vocal ts)\<lparr>m_prevtime := n_end n\<rparr>, vocal')"
    and q: "n_end q = ?b"
    and v: "vt_notes vocal' = butlast (vt_notes vocal) @
                (if n_type n = SLEEP
                 then [q\<lparr>n_lineBreak := True\<rparr>, n\<lparr>n_begin := m_prevtime p, n_end := m_prevtime p\<rparr>]
                 else [q, n\<lparr>n_begin := ?b\<rparr>])"
    by auto
  have l: "length (butlast (vt_notes vocal)) = length (vt_notes vocal) - 1" by simp
  have "length (vt_notes vocal') = Suc (length (vt_notes vocal))" using v ne by (simp add: Suc_pred)
  moreover have "n_end (vt_notes vocal' ! (length (vt_notes vocal) - 1)) = ?b"
    unfolding v l [symmetric] using q by (simp add: nth_append)
  moreover have "b0rkedTracks (m_song ((txtParseNote_seed p1 vocal ts)\<lparr>m_prevtime := n_end n\<rparr>)) = b0rkedTracks (m_song p)"
    using f by (simp add: seed_frame)
  ultimately show ?thesis using r txtParseNote_read_place [OF nl rd, of vocal] by simp
qed

text \<open>
  The claim as stated fails on the flag: after \<open>: 4 4 5 la\<close> (1 s to 2 s) the line
  \<open>: 6 4 5 la\<close> begins at 1.5 s; the first note's end becomes 1.5 s, the second note is
  appended, and \<open>b0rkedTracks\<close> is false before and after.
\<close>

theorem overlap_trimmed_counterexample:
  "txtParseNote parser0 '': 4 4 5 la'' (VocalTrack_new LEAD_VOCAL) = Inr (True, parser_1, track_1)
   \<and> b0rkedTracks (m_song parser_1) = False
   \<and> map_option (map n_end \<circ> vt_notes) (track_of (txtParseNote parser_1 '': 6 4 5 la'' track_1)) = Some [3 / 2, 5 / 2]
   \<and> map_option (b0rkedTracks \<circ> m_song) (parser_of (txtParseNote parser_1 '': 6 4 5 la'' track_1)) = Some False"
  by (simp add: eval_defs Let_def)

text \<open>
  The same line as an instance of the theorem.
\<close>

theorem overlap_trimmed_witness:
  "note_line '': 6 4 5 la''
   \<and> tsTime (m_bpms parser_1) (unat (6 :: uint)) < m_prevtime parser_1
   \<and> n_begin (last (vt_notes track_1)) \<le> tsTime (m_bpms parser_1) (unat (6 :: uint))
   \<and> (\<exists>p' vocal'. txtParseNote parser_1 '': 6 4 5 la'' track_1 = Inr (True, p', vocal')
           \<and> length (vt_notes vocal') = Suc (length (vt_notes track_1))
           \<and> n_end (vt_notes vocal' ! (length (vt_notes track_1) - 1)) = tsTime (m_bpms parser_1) (unat (6 :: uint))
           \<and> b0rkedTracks (m_song p') = b0rkedTracks (m_song parser_1))"
proof -
  have nl: "note_line '': 6 4 5 la''" by (simp add: eval_defs)
  have rd: "txtParseNote_read parser_1 (erase_cr '': 6 4 5 la'')
              = Inr (Note_new\<lparr>n_type := NORMAL, n_note := 5, n_notePrev := 5, n_syllable := ''la'',
                       n_end := 5 / 2\<rparr>, 6, parser_1)"
    by (simp add: eval_defs Let_def)
  have ov: "tsTime (m_bpms parser_1) (unat (6 :: uint)) < m_prevtime parser_1" by (simp add: eval_defs Let_def)
  have ne: "vt_notes track_1 \<noteq> []" by (simp add: eval_defs)
  have ok: "lead_ok (vt_notes track_1)" by (simp add: eval_defs)
  have le: "n_begin (last (vt_notes track_1)) \<le> tsTime (m_bpms parser_1) (unat (6 :: uint))"
    by (simp add: eval_defs Let_def)
  from overlap_trimmed [OF nl rd ov ne ok le] nl ov le show ?thesis by blast
qed

subsection \<open>Skipped notes\<close>

text \<open>
  Claim C2, as amended. For every parsed note line whose begin-time is earlier than
  \<open>m_prevtime\<close>: if the note sequence is empty, the fatal error "The first note has
  negative timestamp" is raised; if it is not empty and the previous note begins after
  the new note once the SLEEP workaround has run (a previous SLEEP whose predecessor ends
  before the new note's begin is moved to that begin), the new note is discarded with a
  warning written to standard output, parsing continues (the result is true), the
  number of notes does not change, \<open>m_prevtime\<close> stays, and the song's \<open>b0rkedTracks\<close> flag
  is left as it was.
\<close>

theorem overlap_skipped:
  assumes nl: "note_line line"
    and rd: "txtParseNote_read p (erase_cr line) = Inr (n, ts, p1)"
    and ov: "tsTime (m_bpms p) (unat ts) < m_prevtime p"
    and ok: "lead_ok (vt_notes vocal)"
  shows "(vt_notes vocal = [] \<longrightarrow>
            txtParseNote p line vocal = Inl (RuntimeError ''The first note has negative timestamp''))
       \<and> (vt_notes vocal \<noteq> []
            \<and> tsTime (m_bpms p) (unat ts) < prev_begin (vt_notes vocal) (tsTime (m_bpms p) (unat ts)) \<longrightarrow>
            (\<exists>p' vocal'. txtParseNote p line vocal = Inr (True, p', vocal')
               \<and> length (vt_notes vocal') = length (vt_notes vocal)
               \<and> cout p' = cout p @ [skip_warning (m_song p)]
               \<and> m_prevtime p' = m_prevtime p
               \<and> b0rkedTracks (m_song p') = b0rkedTracks (m_song p)))"
proof -
  from read_frame [OF rd] have f: "m_song p1 = m_song p" "m_prevtime p1 = m_prevtime p"
      "m_bpms p1 = m_bpms p" "cout p1 = cout p"
    by simp_all
  note tp = txtParseNote_read_place [OF nl rd, of vocal]
  let ?b = "tsTime (m_bpms p) (unat ts)"
  have 1: "txtParseNote p line vocal = Inl (RuntimeError ''The first note has negative timestamp'')"
    if "vt_notes vocal = []"
    using place_empty_overlap [of p1 ts vocal n] ov f that by (simp add: tp)
  have 2: "\<exists>p' vocal'. txtParseNote p line vocal = Inr (True, p', vocal')
               \<and> length (vt_notes vocal') = length (vt_notes vocal)
               \<and> cout p' = cout p @ [skip_warning (m_song p)]
               \<and> m_prevtime p' = m_prevtime p
               \<and> b0rkedTracks (m_song p') = b0rkedTracks (m_song p)"
    if ne: "vt_notes vocal \<noteq> []" and gt: "?b < prev_begin (vt_notes vocal) ?b"
  proof -
    from place_skip [of p1 ts vocal n] ov ne ok gt f obtain q where
      r: "txtParseNote_place p1 vocal n ts =
             Inr (True, (txtParseNote_seed p1 vocal ts)\<lparr>cout := cout p1 @ [skip_warning (m_song p1)]\<rparr>,
                  vocal\<lparr>vt_notes := butlast (vt_notes vocal) @ [q]\<rparr>)"
      by auto
    have "length (butlast (vt_notes vocal) @ [q]) = length (vt_notes vocal)" using ne by simp
    then show ?thesis using r f by (simp add: tp seed_frame)
  qed
  from 1 2 show ?thesis by blast
qed

text \<open>
  After \<open>: 4 4 5 la\<close> (1 s to 2 s) the line \<open>: 2 1 0 x\<close> begins at 0.5 s, before the previous
  note, and is skipped; after a dropped leading SLEEP \<open>- 5\<close> (\<open>m_prevtime\<close> 1.25 s) the line
  \<open>: 3 1 0 x\<close> begins at 0.75 s with no note in the sequence, and the error is raised.
\<close>

theorem overlap_skipped_witness:
  "note_line '': 2 1 0 x''
   \<and> tsTime (m_bpms parser_1) (unat (2 :: uint)) < m_prevtime parser_1
   \<and> tsTime (m_bpms parser_1) (unat (2 :: uint))
        < prev_begin (vt_notes track_1) (tsTime (m_bpms parser_1) (unat (2 :: uint)))
   \<and> (\<exists>p' vocal'. txtParseNote parser_1 '': 2 1 0 x'' track_1 = Inr (True, p', vocal')
          \<and> length (vt_notes vocal') = length (vt_notes track_1)
          \<and> cout p' = cout parser_1 @ [skip_warning (m_song parser_1)]
          \<and> m_prevtime p' = m_prevtime parser_1
          \<and> b0rkedTracks (m_song p') = b0rkedTracks (m_song parser_1))
   \<and> tsTime (m_bpms parser_5) (unat (3 :: uint)) < m_prevtime parser_5
   \<and> txtParseNote parser_5 '': 3 1 0 x'' (VocalTrack_new LEAD_VOCAL)
        = Inl (RuntimeError ''The first note has negative timestamp'')"
proof -
  have nl: "note_line '': 2 1 0 x''" by (simp add: eval_defs)
  have rd: "txtParseNote_read parser_1 (erase_cr '': 2 1 0 x'')
              = Inr (Note_new\<lparr>n_type := NORMAL, n_note := 0, n_notePrev := 0, n_syllable := ''x'',
                       n_end := 3 / 4\<rparr>, 2, parser_1)"
    by (simp add: eval_defs Let_def)
  have ov: "tsTime (m_bpms parser_1) (unat (2 :: uint)) < m_prevtime parser_1" by (simp add: eval_defs Let_def)
  have ok: "lead_ok (vt_notes track_1)" by (simp add: eval_defs)
  have ne: "vt_notes track_1 \<noteq> []" by (simp add: eval_defs)
  have gt: "tsTime (m_bpms parser_1) (unat (2 :: uint))
        < prev_begin (vt_notes track_1) (tsTime (m_bpms parser_1) (unat (2 :: uint)))"
    by (simp add: eval_defs Let_def)
  have nl2: "note_line '': 3 1 0 x''" by (simp add: eval_defs)
  have rd2: "txtParseNote_read parser_5 (erase_cr '': 3 1 0 x'')
              = Inr (Note_new\<lparr>n_type := NORMAL, n_note := 0, n_notePrev := 0, n_syllable := ''x'',
                       n_end := 1\<rparr>, 3, parser_5)"
    by (simp add: eval_defs Let_def)
  have ov2: "tsTime (m_bpms parser_5) (unat (3 :: uint)) < m_prevtime parser_5" by (simp add: eval_defs Let_def)
  have ok2: "lead_ok (vt_notes (VocalTrack_new LEAD_VOCAL))" by (simp add: eval_defs)
  have e2: "vt_notes (VocalTrack_new LEAD_VOCAL) = []" by (simp add: eval_defs)
  from overlap_skipped [OF nl rd ov ok] overlap_skipped [OF nl2 rd2 ov2 ok2] nl ov ne gt ov2 e2
  show ?thesis by blast
qed

text \<open>
  The claim as stated fails on the flag, and on which begin is compared. The skipped
  line \<open>: 2 1 0 x\<close> leaves the track as it was and the warning on standard output, and
  \<open>b0rkedTracks\<close> false. And after \<open>: 4 4 5 la\<close> and \<open>- 6 12\<close> the previous note is a SLEEP
  at 2 s: the line \<open>: 7 1 0 x\<close> begins at 1.75 s, before that SLEEP and before
  \<open>m_prevtime\<close> (3 s), yet it is accepted (three notes), since the SLEEP is moved first.
\<close>

theorem overlap_skipped_counterexample:
  "txtParseNote parser0 '': 4 4 5 la'' (VocalTrack_new LEAD_VOCAL) = Inr (True, parser_1, track_1)
   \<and> b0rkedTracks (m_song parser_1) = False
   \<and> track_of (txtParseNote parser_1 '': 2 1 0 x'' track_1) = Some track_1
   \<and> map_option cout (parser_of (txtParseNote parser_1 '': 2 1 0 x'' track_1))
        = Some [''songparser/warning: Skipping overlapping note in songs/a.txt'' @ [LF]]
   \<and> map_option (b0rkedTracks \<circ> m_song) (parser_of (txtParseNote parser_1 '': 2 1 0 x'' track_1)) = Some False
   \<and> txtParseNote parser_1 ''- 6 12'' track_1 = Inr (True, parser_s, track_s)
   \<and> tsTime (m_bpms parser_s) (unat (7 :: uint)) = 7 / 4
   \<and> m_prevtime parser_s = 3
   \<and> n_begin (last (vt_notes track_s)) = 2
   \<and> length (vt_notes track_s) = 2
   \<and> map_option (length \<circ> vt_notes) (track_of (txtParseNote parser_s '': 7 1 0 x'' track_s)) = Some 3"
  by (simp add: eval_defs Let_def)

subsection \<open>SLEEP lines\<close>

lemma read_sleep:
  assumes "Note_Type (hd l) = Some SLEEP"
  shows "\<exists>n ts p1. txtParseNote_read p l = Inr (n, ts, p1) \<and> n_type n = SLEEP"
  using assms unfolding txtParseNote_read_def Let_def
  by (auto split: option.splits prod.splits)

lemma sleep_line:
  assumes "line \<noteq> []" "hd line = CHR ''-''"
  shows "note_line line" and "Note_Type (hd (erase_cr line)) = Some SLEEP"
proof -
  obtain r where l: "line = CHR ''-'' # r" using assms by (cases line) auto
  have h: "hd (erase_cr line) = CHR ''-''"
    by (cases r) (simp_all add: l erase_cr_def CR_def)
  show "note_line line" using h by (simp add: note_line_def l CR_def)
  show "Note_Type (hd (erase_cr line)) = Some SLEEP" using h by (simp add: Note_Type_def)
qed

lemma map_butlast_snoc:
  "ns \<noteq> [] \<Longrightarrow> f q = f (last ns) \<Longrightarrow> map f (butlast ns @ [q]) = map f ns"
  by (cases ns rule: rev_cases) simp_all

text \<open>
  Claim C3, as amended. For every SLEEP note line, with \<open>b\<close> the time of its tick (the
  tick shifted in relative mode, or what the extraction left when no tick can be read).
  If \<open>b\<close> is not before \<open>m_prevtime\<close>: with an empty note sequence the SLEEP is dropped, the
  track unchanged; otherwise a SLEEP is appended whose begin and end both equal the
  previously resolved end-time \<open>m_prevtime\<close> (not its own computed end, which becomes the
  new \<open>m_prevtime\<close>), and the \<open>lineBreak\<close> flag of the note before it is true. If \<open>b\<close> is
  before \<open>m_prevtime\<close>: with an empty note sequence the fatal error "The first note has
  negative timestamp" is raised; with a previous note whose begin, once the SLEEP
  workaround has run (\<open>prev_begin\<close>), is at most \<open>b\<close>, the SLEEP is appended and normalised
  in the same way; and with a previous note whose begin is then after \<open>b\<close>, the line is
  skipped with a warning: no note is appended, no \<open>lineBreak\<close> flag changes and
  \<open>m_prevtime\<close> stays. The note sequence is one that does not start with a SLEEP, as every
  sequence the note loop builds.
\<close>

theorem sleep_normalised:
  assumes ne: "line \<noteq> []" and sl: "hd line = CHR ''-''" and ok: "lead_ok (vt_notes vocal)"
  shows "\<exists>n ts p1. txtParseNote_read p (erase_cr line) = Inr (n, ts, p1) \<and> n_type n = SLEEP
       \<and> (vt_notes vocal = [] \<and> \<not> tsTime (m_bpms p) (unat ts) < m_prevtime p \<longrightarrow>
            (\<exists>p'. txtParseNote p line vocal = Inr (True, p', vocal) \<and> m_prevtime p' = n_end n))
       \<and> (vt_notes vocal = [] \<and> tsTime (m_bpms p) (unat ts) < m_prevtime p \<longrightarrow>
            txtParseNote p line vocal = Inl (RuntimeError ''The first note has negative timestamp''))
       \<and> (vt_notes vocal \<noteq> []
            \<and> (\<not> tsTime (m_bpms p) (unat ts) < m_prevtime p
                \<or> prev_begin (vt_notes vocal) (tsTime (m_bpms p) (unat ts)) \<le> tsTime (m_bpms p) (unat ts)) \<longrightarrow>
            (\<exists>p' vocal'. txtParseNote p line vocal = Inr (True, p', vocal')
               \<and> length (vt_notes vocal') = Suc (length (vt_notes vocal))
               \<and> n_type (last (vt_notes vocal')) = SLEEP
               \<and> n_begin (last (vt_notes vocal')) = m_prevtime p
               \<and> n_end (last (vt_notes vocal')) = m_prevtime p
               \<and> n_lineBreak (vt_notes vocal' ! (length (vt_notes vocal) - 1))
               \<and> m_prevtime p' = n_end n))
       \<and> (vt_notes vocal \<noteq> [] \<and> tsTime (m_bpms p) (unat ts) < m_prevtime p
            \<and> tsTime (m_bpms p) (unat ts) < prev_begin (vt_notes vocal) (tsTime (m_bpms p) (unat ts)) \<longrightarrow>
            (\<exists>p' vocal'. txtParseNote p line vocal = Inr (True, p', vocal')
               \<and> length (vt_notes vocal') = length (vt_notes vocal)
               \<and> map n_lineBreak (vt_notes vocal') = map n_lineBreak (vt_notes vocal)
               \<and> cout p' = cout p @ [skip_warning (m_song p)]
               \<and> m_prevtime p' = m_prevtime p))"
proof -
  note nl = sleep_line(1) [OF ne sl]
  from read_sleep [OF sleep_line(2) [OF ne sl], of p] obtain n ts p1 where
    rd: "txtParseNote_read p (erase_cr line) = Inr (n, ts, p1)" and ty: "n_type n = SLEEP"
    by blast
  from read_frame [OF rd] have f: "m_song p1 = m_song p" "m_prevtime p1 = m_prevtime p"
      "m_bpms p1 = m_bpms p" "cout p1 = cout p"
    by simp_all
  note tp = txtParseNote_read_place [OF nl rd, of vocal]
  let ?b = "tsTime (m_bpms p) (unat ts)"
  let ?n = "n\<lparr>n_begin := ?b\<rparr>"
  have 1: "\<exists>p'. txtParseNote p line vocal = Inr (True, p', vocal) \<and> m_prevtime p' = n_end n"
    if e: "vt_notes vocal = []" and no: "\<not> ?b < m_prevtime p"
  proof -
    from no have "\<not> ?b < m_prevtime p1" using f by simp
    then have "txtParseNote_place p1 vocal n ts = Inr (txtParseNote_push (txtParseNote_seed p1 vocal ts) vocal ?n)"
      using place_plain [of p1 ts vocal n] f by simp
    then show ?thesis using push_sleep_empty [of ?n vocal] ty e by (simp add: tp)
  qed
  have 2: "txtParseNote p line vocal = Inl (RuntimeError ''The first note has negative timestamp'')"
    if e: "vt_notes vocal = []" and ov: "?b < m_prevtime p"
    using place_empty_overlap [of p1 ts vocal n] ov f e by (simp add: tp)
  have 3: "\<exists>p' vocal'. txtParseNote p line vocal = Inr (True, p', vocal')
               \<and> length (vt_notes vocal') = Suc (length (vt_notes vocal))
               \<and> n_type (last (vt_notes vocal')) = SLEEP
               \<and> n_begin (last (vt_notes vocal')) = m_prevtime p
               \<and> n_end (last (vt_notes vocal')) = m_prevtime p
               \<and> n_lineBreak (vt_notes vocal' ! (length (vt_notes vocal) - 1))
               \<and> m_prevtime p' = n_end n"
    if nn: "vt_notes vocal \<noteq> []"
      and acc: "\<not> ?b < m_prevtime p \<or> prev_begin (vt_notes vocal) ?b \<le> ?b"
  proof (cases "?b < m_prevtime p")
    case True
    with acc have le: "prev_begin (vt_notes vocal) ?b \<le> ?b" by simp
    from place_trim [of p1 ts vocal n] True nn ok le f ty obtain q vocal' where
      r: "txtParseNote_place p1 vocal n ts = Inr (True, (txtParseNote_seed p1 vocal ts)\<lparr>m_prevtime := n_end n\<rparr>, vocal')"
      and v: "vt_notes vocal' = butlast (vt_notes vocal) @
                [q\<lparr>n_lineBreak := True\<rparr>, n\<lparr>n_begin := m_prevtime p, n_end := m_prevtime p\<rparr>]"
      by auto
    have l: "length (butlast (vt_notes vocal)) = length (vt_notes vocal) - 1" by simp
    have "n_lineBreak (vt_notes vocal' ! (length (vt_notes vocal) - 1))"
      unfolding v l [symmetric] by (simp add: nth_append)
    moreover have "length (vt_notes vocal') = Suc (length (vt_notes vocal))" using v nn by (simp add: Suc_pred)
    ultimately show ?thesis using r v ty by (simp add: tp)
  next
    case False
    then have "\<not> ?b < m_prevtime p1" using f by simp
    then have pl: "txtParseNote_place p1 vocal n ts = Inr (txtParseNote_push (txtParseNote_seed p1 vocal ts) vocal ?n)"
      using place_plain [of p1 ts vocal n] f by simp
    let ?ns = "butlast (vt_notes vocal) @ [(last (vt_notes vocal))\<lparr>n_lineBreak := True\<rparr>]
                   @ [?n\<lparr>n_begin := m_prevtime p, n_end := m_prevtime p\<rparr>]"
    have ps: "txtParseNote_push (txtParseNote_seed p1 vocal ts) vocal ?n =
       (True, (txtParseNote_seed p1 vocal ts)\<lparr>m_prevtime := n_end ?n\<rparr>, vocal\<lparr>vt_notes := ?ns\<rparr>)"
      using push_sleep [of ?n vocal "txtParseNote_seed p1 vocal ts"] ty nn f by (simp add: seed_frame)
    have l: "length (butlast (vt_notes vocal)) = length (vt_notes vocal) - 1" by simp
    have "n_lineBreak (?ns ! (length (vt_notes vocal) - 1))"
      unfolding l [symmetric] by (simp add: nth_append)
    moreover have "length ?ns = Suc (length (vt_notes vocal))" using nn by (simp add: Suc_pred)
    ultimately show ?thesis using pl ps ty by (simp add: tp)
  qed
  have 4: "\<exists>p' vocal'. txtParseNote p line vocal = Inr (True, p', vocal')
               \<and> length (vt_notes vocal') = length (vt_notes vocal)
               \<and> map n_lineBreak (vt_notes vocal') = map n_lineBreak (vt_notes vocal)
               \<and> cout p' = cout p @ [skip_warning (m_song p)]
               \<and> m_prevtime p' = m_prevtime p"
    if nn: "vt_notes vocal \<noteq> []" and ov: "?b < m_prevtime p"
      and gt: "?b < prev_begin (vt_notes vocal) ?b"
  proof -
    from place_skip [of p1 ts vocal n] ov nn ok gt f obtain q where
      r: "txtParseNote_place p1 vocal n ts =
             Inr (True, (txtParseNote_seed p1 vocal ts)\<lparr>cout := cout p1 @ [skip_warning (m_song p1)]\<rparr>,
                  vocal\<lparr>vt_notes := butlast (vt_notes vocal) @ [q]\<rparr>)"
      and q: "n_lineBreak q = n_lineBreak (last (vt_notes vocal))"
      by auto
    have "length (butlast (vt_notes vocal) @ [q]) = length (vt_notes vocal)" using nn by simp
    moreover have "map n_lineBreak (butlast (vt_notes vocal) @ [q]) = map n_lineBreak (vt_notes vocal)"
      by (rule map_butlast_snoc [OF nn q])
    ultimately show ?thesis using r f by (simp add: tp seed_frame)
  qed
  from rd ty 1 2 3 4 show ?thesis by blast
qed

text \<open>
  After \<open>: 4 4 5 la\<close> and \<open>- 6 12\<close> (\<open>m_prevtime\<close> 3 s, a SLEEP at 2 s after a note that ends
  at 1.5 s) the line \<open>- 7\<close> is at 1.75 s, before \<open>m_prevtime\<close>; the previous SLEEP is moved
  to 1.75 s by the workaround, and the new SLEEP is appended at 3 s, the line break of the
  note before it set. After \<open>: 4 4 5 la\<close> alone (\<open>m_prevtime\<close> 2 s, the note begins at 1 s)
  the line \<open>- 2\<close> is at 0.5 s and is skipped.
\<close>

theorem sleep_normalised_witness:
  "lead_ok (vt_notes track_s) \<and> vt_notes track_s \<noteq> []
   \<and> tsTime (m_bpms parser_s) (unat (7 :: uint)) < m_prevtime parser_s
   \<and> prev_begin (vt_notes track_s) (tsTime (m_bpms parser_s) (unat (7 :: uint)))
        \<le> tsTime (m_bpms parser_s) (unat (7 :: uint))
   \<and> m_prevtime parser_s = 3
   \<and> (\<exists>p' vocal'. txtParseNote parser_s ''- 7'' track_s = Inr (True, p', vocal')
         \<and> length (vt_notes vocal') = Suc (length (vt_notes track_s))
         \<and> n_type (last (vt_notes vocal')) = SLEEP
         \<and> n_begin (last (vt_notes vocal')) = m_prevtime parser_s
         \<and> n_end (last (vt_notes vocal')) = m_prevtime parser_s
         \<and> n_lineBreak (vt_notes vocal' ! (length (vt_notes track_s) - 1))
         \<and> m_prevtime p' = 7 / 4)
   \<and> lead_ok (vt_notes track_1) \<and> vt_notes track_1 \<noteq> []
   \<and> tsTime (m_bpms parser_1) (unat (2 :: uint)) < m_prevtime parser_1
   \<and> tsTime (m_bpms parser_1) (unat (2 :: uint))
        < prev_begin (vt_notes track_1) (tsTime (m_bpms parser_1) (unat (2 :: uint)))
   \<and> (\<exists>p' vocal'. txtParseNote parser_1 ''- 2'' track_1 = Inr (True, p', vocal')
         \<and> length (vt_notes vocal') = length (vt_notes track_1)
         \<and> map n_lineBreak (vt_notes vocal') = map n_lineBreak (vt_notes track_1)
         \<and> cout p' = cout parser_1 @ [skip_warning (m_song parser_1)]
         \<and> m_prevtime p' = m_prevtime parser_1)"
proof -
  have ok: "lead_ok (vt_notes track_s)" "lead_ok (vt_notes track_1)" by (simp_all add: eval_defs)
  have nn: "vt_notes track_s \<noteq> []" "vt_notes track_1 \<noteq> []" by (simp_all add: eval_defs)
  have rd7: "txtParseNote_read parser_s (erase_cr ''- 7'')
              = Inr (Note_new\<lparr>n_type := SLEEP, n_end := 7 / 4\<rparr>, 7, parser_s)"
    by (simp add: eval_defs Let_def)
  have rd2: "txtParseNote_read parser_1 (erase_cr ''- 2'')
              = Inr (Note_new\<lparr>n_type := SLEEP, n_end := 1 / 2\<rparr>, 2, parser_1)"
    by (simp add: eval_defs Let_def)
  have ov7: "tsTime (m_bpms parser_s) (unat (7 :: uint)) < m_prevtime parser_s"
    and le7: "prev_begin (vt_notes track_s) (tsTime (m_bpms parser_s) (unat (7 :: uint)))
        \<le> tsTime (m_bpms parser_s) (unat (7 :: uint))"
    and pt: "m_prevtime parser_s = 3"
    by (simp_all add: eval_defs Let_def)
  have ov2: "tsTime (m_bpms parser_1) (unat (2 :: uint)) < m_prevtime parser_1"
    and gt2: "tsTime (m_bpms parser_1) (unat (2 :: uint))
        < prev_begin (vt_notes track_1) (tsTime (m_bpms parser_1) (unat (2 :: uint)))"
    by (simp_all add: eval_defs Let_def)
  have a: "\<exists>p' vocal'. txtParseNote parser_s ''- 7'' track_s = Inr (True, p', vocal')
         \<and> length (vt_notes vocal') = Suc (length (vt_notes track_s))
         \<and> n_type (last (vt_notes vocal')) = SLEEP
         \<and> n_begin (last (vt_notes vocal')) = m_prevtime parser_s
         \<and> n_end (last (vt_notes vocal')) = m_prevtime parser_s
         \<and> n_lineBreak (vt_notes vocal' ! (length (vt_notes track_s) - 1))
         \<and> m_prevtime p' = 7 / 4"
    using sleep_normalised [of "''- 7''" track_s parser_s] ok(1) nn(1) ov7 le7 rd7
    by (simp add: Note_new_def)
  have b: "\<exists>p' vocal'. txtParseNote parser_1 ''- 2'' track_1 = Inr (True, p', vocal')
         \<and> length (vt_notes vocal') = length (vt_notes track_1)
         \<and> map n_lineBreak (vt_notes vocal') = map n_lineBreak (vt_notes track_1)
         \<and> cout p' = cout parser_1 @ [skip_warning (m_song parser_1)]
         \<and> m_prevtime p' = m_prevtime parser_1"
    using sleep_normalised [of "''- 2''" track_1 parser_1] ok(2) nn(2) ov2 gt2 rd2
    by simp
  from a b ok nn ov7 le7 pt ov2 gt2 show ?thesis by blast
qed

text \<open>
  The claim as stated fails for a SLEEP line that the overlap recovery rejects. After
  \<open>: 4 4 5 la\<close> (1 s to 2 s) the SLEEP line \<open>- 2\<close> (0.5 s) is skipped: the track is as it
  was, with one note whose \<open>lineBreak\<close> is false. After the dropped leading SLEEP \<open>- 5\<close>
  the SLEEP line \<open>- 3\<close> meets an empty sequence and raises the fatal error.
\<close>

theorem sleep_normalised_counterexample:
  "txtParseNote parser0 '': 4 4 5 la'' (VocalTrack_new LEAD_VOCAL) = Inr (True, parser_1, track_1)
   \<and> vt_notes track_1 = [note_1] \<and> n_lineBreak note_1 = False
   \<and> txtParseNote parser_1 ''- 2'' track_1
        = Inr (True, parser_1\<lparr>m_prevts := 2, cout := [skip_warning song0]\<rparr>, track_1)
   \<and> txtParseNote parser0 ''- 5'' (VocalTrack_new LEAD_VOCAL) = Inr (True, parser_5, VocalTrack_new LEAD_VOCAL)
   \<and> txtParseNote parser_5 ''- 3'' (VocalTrack_new LEAD_VOCAL)
        = Inl (RuntimeError ''The first note has negative timestamp'')"
  by (simp add: eval_defs Let_def)

subsection \<open>The relative shift\<close>

text \<open>
  The header does not write the relative shift, and neither does a line of the note
  stream that is not a note line (an empty line, a tempo change, a player line); such a
  line leaves the track, the mode and the last tick as they are, too. So the shift that
  the very first note line of a track meets is the one the parser started with.
\<close>

lemma txtParseField_key_shift:
  "txtParseField_key p key val = Inr (c, p') \<Longrightarrow> m_relativeShift p' = m_relativeShift p"
  unfolding txtParseField_key_def Let_def
  by (auto split: if_splits sum.splits)

lemma txtParseField_shift:
  assumes "txtParseField p l = Inr (c, p')"
  shows "m_relativeShift p' = m_relativeShift p"
  using assms
  unfolding txtParseField_def Let_def
  by (auto split: option.splits if_splits dest!: txtParseField_key_shift)

lemma txtParseFields_shift:
  "txtParseFields ls l p = Inr (ls', l', p') \<Longrightarrow> m_relativeShift p' = m_relativeShift p"
proof (induction ls arbitrary: l p)
  case Nil
  then show ?case by simp
next
  case (Cons a ls)
  show ?case
  proof (cases "txtParseField p a")
    case (Inl e)
    then show ?thesis using Cons.prems by simp
  next
    case (Inr x)
    obtain c q where x: "x = (c, q)" by (cases x)
    have s: "m_relativeShift q = m_relativeShift p" by (rule txtParseField_shift [of p a c q]) (simp add: Inr x)
    show ?thesis
    proof (cases c)
      case True
      then have "txtParseFields ls a q = Inr (ls', l', p')" using Cons.prems Inr x by simp
      from Cons.IH [OF this] s show ?thesis by simp
    next
      case False
      then show ?thesis using Cons.prems Inr x s by simp
    qed
  qed
qed

lemma txtParse_bpm_shift: "txtParse_bpm p = Inr p' \<Longrightarrow> m_relativeShift p' = m_relativeShift p"
  by (auto simp: txtParse_bpm_def split: if_splits dest!: SongParser_addBPM_frame)

lemma other_line_frame:
  assumes "\<not> note_line l" "txtParseNote p l vocal = Inr (True, p', vocal')"
  shows "vocal' = vocal \<and> m_relative p' = m_relative p \<and> m_relativeShift p' = m_relativeShift p
         \<and> m_prevts p' = m_prevts p"
  using assms
  by (auto simp: txtParseNote_def note_line_def Let_def
        split: option.splits if_splits prod.splits sum.splits dest!: SongParser_addBPM_frame)

lemma read_first:
  assumes "txtParseNote_read p l = Inr (n, ts, p1)" "m_relativeShift p = 0"
  shows "ts = fst (extract_unsigned (tl l) (m_prevts p)) \<and> m_relative p1 = m_relative p"
  using assms unfolding txtParseNote_read_def Let_def
  by (auto split: option.splits NoteType.splits if_splits prod.splits)

lemma push_first:
  assumes "vt_notes vocal = []"
  shows "\<exists>vocal'. txtParseNote_push p vocal n = (True, p\<lparr>m_prevtime := n_end n\<rparr>, vocal')
           \<and> (vt_notes vocal' = [] \<or> vt_notes vocal' = [n])"
  using assms by (simp add: txtParseNote_push_def Let_def)

lemma first_note_line:
  assumes nl: "note_line line" and rel: "m_relative p" and z: "m_relativeShift p = 0"
    and emp: "vt_notes vocal = []"
    and run: "txtParseNote p line vocal = Inr (c, p', vocal')"
  shows "m_relativeShift p' = fst (extract_unsigned (tl (erase_cr line)) (m_prevts p))
         \<and> length (vt_notes vocal') \<le> 1
         \<and> list_all (\<lambda>n. n_begin n = tsTime (m_bpms p') (unat (m_relativeShift p'))) (vt_notes vocal')"
proof (cases "txtParseNote_read p (erase_cr line)")
  case (Inl e)
  then show ?thesis using run by (simp add: txtParseNote_note_line [OF nl])
next
  case (Inr x)
  obtain n ts p1 where rd: "txtParseNote_read p (erase_cr line) = Inr (n, ts, p1)"
    using Inr by (cases x) auto
  from read_frame [OF rd] have f: "m_prevtime p1 = m_prevtime p" "m_bpms p1 = m_bpms p" by simp_all
  from read_first [OF rd z] rel have ts: "ts = fst (extract_unsigned (tl (erase_cr line)) (m_prevts p))"
    and r1: "m_relative p1" by simp_all
  note tp = txtParseNote_read_place [OF nl rd, of vocal]
  let ?n = "n\<lparr>n_begin := tsTime (m_bpms p1) (unat ts)\<rparr>"
  let ?q = "txtParseNote_seed p1 vocal ts"
  show ?thesis
  proof (cases "tsTime (m_bpms p1) (unat ts) < m_prevtime p1")
    case True
    from place_empty_overlap [OF True emp, of n] show ?thesis using run by (simp add: tp)
  next
    case False
    from place_plain [OF False, of vocal n]
    have pl: "txtParseNote_place p1 vocal n ts = Inr (txtParseNote_push ?q vocal ?n)" .
    from push_first [OF emp, of ?q ?n] obtain v where
      ps: "txtParseNote_push ?q vocal ?n = (True, ?q\<lparr>m_prevtime := n_end ?n\<rparr>, v)"
      and v: "vt_notes v = [] \<or> vt_notes v = [?n]"
      by blast
    from run pl ps have p': "p' = ?q\<lparr>m_prevtime := n_end ?n\<rparr>" and v': "vocal' = v"
      by (simp_all add: tp)
    have sft: "m_relativeShift p' = ts" using r1 emp by (simp add: p' seed_frame)
    have bp: "m_bpms p' = m_bpms p1" by (simp add: p' seed_frame)
    from v show ?thesis
    proof
      assume "vt_notes v = []"
      then show ?thesis using sft ts by (simp add: v')
    next
      assume "vt_notes v = [?n]"
      then show ?thesis using sft ts bp by (simp add: v')
    qed
  qed
qed

lemma txtParseNotes_Nil:
  "txtParseNotes [] line p vocal =
     (case txtParseNote p line vocal of
        Inl e \<Rightarrow> Inl e
      | Inr (cont, p', vocal') \<Rightarrow> Inr ([], p', vocal'))"
  by (simp split: sum.splits)

lemma txtParseNotes_Cons:
  "txtParseNotes (l # ls) line p vocal =
     (case txtParseNote p line vocal of
        Inl e \<Rightarrow> Inl e
      | Inr (cont, p', vocal') \<Rightarrow>
          if cont then txtParseNotes ls l p' vocal' else Inr (l # ls, p', vocal'))"
  by (subst txtParseNotes.simps) (simp split: sum.splits del: txtParseNotes.simps)

text \<open>
  Claim C5. In relative-timestamp mode, for the very first note line of a track: the note
  loop starts on a track with no note and a relative shift of 0, the lines before
  the first note line are not note lines, and the input ends with that note line, so that
  the loop returns the state the line leaves. Then \<open>m_relativeShift\<close> is the line's raw
  tick (the value the extraction of the tick stores), and the line's timestamps are not
  shifted: the track holds at most one note (none when the line is a SLEEP), and that note
  begins at the time of the raw tick.
\<close>

theorem relativeShift_seeded:
  assumes rel: "m_relative p" and z: "m_relativeShift p = 0" and emp: "vt_notes vocal = []"
    and pre: "list_all (\<lambda>l. \<not> note_line l) (butlast (l0 # ls))"
    and nl: "note_line (last (l0 # ls))"
    and run: "txtParseNotes ls l0 p vocal = Inr ([], p', vocal')"
  shows "m_relativeShift p' = fst (extract_unsigned (tl (erase_cr (last (l0 # ls)))) (m_prevts p))
         \<and> length (vt_notes vocal') \<le> 1
         \<and> list_all (\<lambda>n. n_begin n = tsTime (m_bpms p') (unat (m_relativeShift p'))) (vt_notes vocal')"
  using assms
proof (induction ls arbitrary: l0 p)
  case Nil
  from Nil.prems(6) obtain c where r: "txtParseNote p l0 vocal = Inr (c, p', vocal')"
    by (auto simp: txtParseNotes_Nil simp del: txtParseNotes.simps split: sum.splits)
  have nl0: "note_line l0" using Nil.prems(5) by simp
  have l: "last [l0] = l0" by simp
  show ?case unfolding l by (rule first_note_line [OF nl0 Nil.prems(1,2,3) r])
next
  case (Cons l ls)
  from Cons.prems(4) have o: "\<not> note_line l0" and pre': "list_all (\<lambda>l. \<not> note_line l) (butlast (l # ls))"
    by simp_all
  from Cons.prems(5) have nl': "note_line (last (l # ls))" by simp
  show ?case
  proof (cases "txtParseNote p l0 vocal")
    case (Inl e)
    then show ?thesis using Cons.prems(6) by (simp add: txtParseNotes_Cons del: txtParseNotes.simps)
  next
    case (Inr x)
    obtain c q v where x: "x = (c, q, v)" by (cases x)
    have c: c using Cons.prems(6) Inr x
      by (cases c) (simp_all add: txtParseNotes_Cons del: txtParseNotes.simps)
    then have fr: "v = vocal" "m_relative q = m_relative p" "m_relativeShift q = m_relativeShift p"
         "m_prevts q = m_prevts p"
      using other_line_frame [OF o, of p vocal q v] Inr x by simp_all
    have run': "txtParseNotes ls l q vocal = Inr ([], p', vocal')"
      using Cons.prems(6) Inr x c fr by (simp add: txtParseNotes_Cons del: txtParseNotes.simps)
    have rq: "m_relative q" "m_relativeShift q = 0" using fr Cons.prems(1,2) by simp_all
    have l: "last (l0 # l # ls) = last (l # ls)" by simp
    show ?thesis unfolding l fr(4) [symmetric]
      by (rule Cons.IH [OF rq Cons.prems(3) pre' nl' run'])
  qed
qed

text \<open>
  In relative mode, after an empty line and a player line, the line \<open>: 3 1 0 la\<close> is the first
  note line: the shift becomes 3 and the note begins at tick 3 (0.75 s). When the first
  note line is the SLEEP \<open>- 5 9\<close>, the shift becomes 5 and the track stays empty.
\<close>

theorem relativeShift_seeded_witness:
  "m_relative parser_rel \<and> m_relativeShift parser_rel = 0 \<and> vt_notes (VocalTrack_new LEAD_VOCAL) = []
   \<and> list_all (\<lambda>l. \<not> note_line l) (butlast [[], ''P 1'', '': 3 1 0 la''])
   \<and> note_line (last [[], ''P 1'', '': 3 1 0 la''])
   \<and> txtParseNotes [''P 1'', '': 3 1 0 la''] [] parser_rel (VocalTrack_new LEAD_VOCAL)
        = Inr ([], parser_rel\<lparr>m_prevtime := 1, m_prevts := 3, m_relativeShift := 3\<rparr>,
               \<lparr>name = LEAD_VOCAL,
                vt_notes = [\<lparr>n_begin = 3 / 4, n_end = 1, n_type = NORMAL, n_note = 0, n_notePrev = 0,
                              n_syllable = ''la'', n_lineBreak = False\<rparr>],
                noteMin = 0, noteMax = 0\<rparr>)
   \<and> fst (extract_unsigned (tl (erase_cr '': 3 1 0 la'')) (m_prevts parser_rel)) = 3
   \<and> txtParseNotes [] ''- 5 9'' parser_rel (VocalTrack_new LEAD_VOCAL)
        = Inr ([], parser_rel\<lparr>m_prevtime := 9 / 4, m_prevts := 5, m_relativeShift := 5\<rparr>,
               VocalTrack_new LEAD_VOCAL)
   \<and> fst (extract_unsigned (tl (erase_cr ''- 5 9'')) (m_prevts parser_rel)) = 5"
proof -
  have s: "m_relative parser_rel" "m_relativeShift parser_rel = 0" "vt_notes (VocalTrack_new LEAD_VOCAL) = []"
    by (simp_all add: eval_defs)
  have pre: "list_all (\<lambda>l. \<not> note_line l) (butlast [[], ''P 1'', '': 3 1 0 la''])"
    "list_all (\<lambda>l. \<not> note_line l) (butlast [''- 5 9''])"
    by (simp_all add: eval_defs)
  have nl: "note_line (last [[], ''P 1'', '': 3 1 0 la''])" "note_line (last [''- 5 9''])"
    by (simp_all add: eval_defs)
  have r1: "txtParseNotes [''P 1'', '': 3 1 0 la''] [] parser_rel (VocalTrack_new LEAD_VOCAL)
        = Inr ([], parser_rel\<lparr>m_prevtime := 1, m_prevts := 3, m_relativeShift := 3\<rparr>,
               \<lparr>name = LEAD_VOCAL,
                vt_notes = [\<lparr>n_begin = 3 / 4, n_end = 1, n_type = NORMAL, n_note = 0, n_notePrev = 0,
                              n_syllable = ''la'', n_lineBreak = False\<rparr>],
                noteMin = 0, noteMax = 0\<rparr>)"
    by (simp add: eval_defs LEAD_VOCAL_def Let_def)
  have r2: "txtParseNotes [] ''- 5 9'' parser_rel (VocalTrack_new LEAD_VOCAL)
        = Inr ([], parser_rel\<lparr>m_prevtime := 9 / 4, m_prevts := 5, m_relativeShift := 5\<rparr>,
               VocalTrack_new LEAD_VOCAL)"
    by (simp add: eval_defs Let_def)
  from relativeShift_seeded [OF s pre(1) nl(1) r1] relativeShift_seeded [OF s pre(2) nl(2) r2]
    s pre(1) nl(1) r1 r2
  show ?thesis by simp
qed

text \<open>
  The seed is taken at every note line that meets an empty track, so also at a note line
  that follows a dropped leading SLEEP. That line is not the first note line: after the
  SLEEP \<open>- 5\<close> the shift is 5, the line \<open>: 2 1 0 la\<close> is read at tick 7, and the shift it
  leaves is 7.
\<close>

lemma seed_after_leading_sleep:
  "txtParseNote parser_rel ''- 5'' (VocalTrack_new LEAD_VOCAL) = Inr (True, parser_rel_5, VocalTrack_new LEAD_VOCAL)
   \<and> map_option m_relativeShift (parser_of (txtParseNote parser_rel_5 '': 2 1 0 la'' (VocalTrack_new LEAD_VOCAL)))
        = Some 7"
  by (simp add: eval_defs Let_def)

subsection \<open>Header and full parse\<close>

lemma txtParse_bpm_zero: "m_bpm p = 0 \<Longrightarrow> txtParse_bpm p = Inr p"
  by (simp add: txtParse_bpm_def)

lemma txtParse_bpm_neg: "m_bpm p < 0 \<Longrightarrow> txtParse_bpm p = Inl InvalidBPM"
  by (simp add: txtParse_bpm_def SongParser_addBPM_def addBPM_refuses)

lemma txtParse_bpm_pos:
  assumes "0 < m_bpm p"
  shows "\<exists>tb. addBPM (m_bpms p) 0 (m_bpm p) = Inr tb \<and> txtParse_bpm p = Inr (p\<lparr>m_bpms := tb\<rparr>)
           \<and> cp_tick (last (changes tb)) = 0 \<and> cp_bpm (last (changes tb)) = m_bpm p"
proof -
  from addBPM_pos [OF assms] obtain tb where a: "addBPM (m_bpms p) 0 (m_bpm p) = Inr tb" by blast
  have "txtParse_bpm p = Inr (p\<lparr>m_bpms := tb\<rparr>)"
    using assms a by (simp add: txtParse_bpm_def SongParser_addBPM_def)
  moreover have "cp_tick (last (changes tb)) = 0" "cp_bpm (last (changes tb)) = m_bpm p"
    by (simp_all add: addBPM_Inr(3) [OF a])
  ultimately show ?thesis using a by blast
qed

text \<open>
  Claim C8, as amended. After the header field stream has ended (at the first line that
  is not a header line, or at the end of the input) without an error of its own, header
  parsing raises a fatal error if and only if the title or the artist is still empty or
  the captured BPM is negative: with an empty title or artist the error is "Required
  header fields missing"; otherwise a captured BPM (one that is not 0) is passed to the
  timebase at tick 0, which refuses a BPM that is not positive. On success the captured
  BPM is registered at tick 0 (the last change-point of the timebase is at tick 0 with
  that BPM; with no BPM captured the timebase is as it was), and a lead-vocal track with
  no notes is in the track map when header parsing returns.
\<close>

theorem txtParseHeader_completion:
  assumes "txtParseFields ls [] p = Inr (ls', line, p1)"
  shows "(isl (txtParseHeader ls p) \<longleftrightarrow>
            title (m_song p1) = [] \<or> artist (m_song p1) = [] \<or> m_bpm p1 < 0)
       \<and> (title (m_song p1) = [] \<or> artist (m_song p1) = [] \<longrightarrow>
            txtParseHeader ls p = Inl (RuntimeError ''Required header fields missing''))
       \<and> (title (m_song p1) \<noteq> [] \<and> artist (m_song p1) \<noteq> [] \<and> m_bpm p1 < 0 \<longrightarrow>
            txtParseHeader ls p = Inl InvalidBPM)
       \<and> (title (m_song p1) \<noteq> [] \<and> artist (m_song p1) \<noteq> [] \<and> 0 \<le> m_bpm p1 \<longrightarrow>
            (\<exists>p'. txtParseHeader ls p = Inr (ls', p')
               \<and> (if m_bpm p1 = 0 then m_bpms p' = m_bpms p1
                   else addBPM (m_bpms p1) 0 (m_bpm p1) = Inr (m_bpms p')
                        \<and> cp_tick (last (changes (m_bpms p'))) = 0
                        \<and> cp_bpm (last (changes (m_bpms p'))) = m_bpm p1)
               \<and> map_find (vocalTracks (m_song p')) LEAD_VOCAL = Some (VocalTrack_new LEAD_VOCAL)
               \<and> vt_notes (VocalTrack_new LEAD_VOCAL) = []
               \<and> hasVocals (m_song p')))"
proof -
  let ?missing = "title (m_song p1) = [] \<or> artist (m_song p1) = []"
  have 1: "txtParseHeader ls p = Inl (RuntimeError ''Required header fields missing'')" if ?missing
    using assms that by (auto simp: txtParseHeader_def)
  have 2: "txtParseHeader ls p = Inl InvalidBPM" if "\<not> ?missing" "m_bpm p1 < 0"
    using assms that by (simp add: txtParseHeader_def txtParse_bpm_neg)
  have 3: "\<exists>p'. txtParseHeader ls p = Inr (ls', p')
               \<and> (if m_bpm p1 = 0 then m_bpms p' = m_bpms p1
                   else addBPM (m_bpms p1) 0 (m_bpm p1) = Inr (m_bpms p')
                        \<and> cp_tick (last (changes (m_bpms p'))) = 0
                        \<and> cp_bpm (last (changes (m_bpms p'))) = m_bpm p1)
               \<and> map_find (vocalTracks (m_song p')) LEAD_VOCAL = Some (VocalTrack_new LEAD_VOCAL)
               \<and> vt_notes (VocalTrack_new LEAD_VOCAL) = []
               \<and> hasVocals (m_song p')"
    if ok: "\<not> ?missing" and nn: "0 \<le> m_bpm p1"
  proof -
    obtain q where q: "txtParse_bpm p1 = Inr q" "m_song q = m_song p1"
      and b: "if m_bpm p1 = 0 then m_bpms q = m_bpms p1
              else addBPM (m_bpms p1) 0 (m_bpm p1) = Inr (m_bpms q)
                   \<and> cp_tick (last (changes (m_bpms q))) = 0
                   \<and> cp_bpm (last (changes (m_bpms q))) = m_bpm p1"
    proof (cases "m_bpm p1 = 0")
      case True
      with txtParse_bpm_zero [OF True] that [of p1] show ?thesis by simp
    next
      case False
      with nn have "0 < m_bpm p1" by simp
      from txtParse_bpm_pos [OF this] obtain tb where
        "addBPM (m_bpms p1) 0 (m_bpm p1) = Inr tb" "txtParse_bpm p1 = Inr (p1\<lparr>m_bpms := tb\<rparr>)"
        "cp_tick (last (changes tb)) = 0" "cp_bpm (last (changes tb)) = m_bpm p1"
        by blast
      with False that [of "p1\<lparr>m_bpms := tb\<rparr>"] show ?thesis by simp
    qed
    let ?p' = "q\<lparr>m_song := insertVocalTrack (m_song q) LEAD_VOCAL (VocalTrack_new LEAD_VOCAL)\<rparr>"
    have r: "txtParseHeader ls p = Inr (ls', ?p')"
      using assms ok q by (simp add: txtParseHeader_def)
    have f: "map_find (vocalTracks (m_song ?p')) LEAD_VOCAL = Some (VocalTrack_new LEAD_VOCAL)"
      by (simp add: map_find_insertVocalTrack)
    then have "vocalTracks (m_song ?p') \<noteq> []" by (auto simp: map_find_def)
    then have h: "hasVocals (m_song ?p')" by (simp add: hasVocals_def)
    have e: "vt_notes (VocalTrack_new LEAD_VOCAL) = []" by (simp add: VocalTrack_new_def)
    have b': "if m_bpm p1 = 0 then m_bpms ?p' = m_bpms p1
              else addBPM (m_bpms p1) 0 (m_bpm p1) = Inr (m_bpms ?p')
                   \<and> cp_tick (last (changes (m_bpms ?p'))) = 0
                   \<and> cp_bpm (last (changes (m_bpms ?p'))) = m_bpm p1"
      using b by simp
    from r f h e b' show ?thesis by blast
  qed
  have 4: "isl (txtParseHeader ls p) \<longleftrightarrow> ?missing \<or> m_bpm p1 < 0"
  proof (cases ?missing)
    case True
    from 1 [OF True] True show ?thesis by simp
  next
    case ok: False
    show ?thesis
    proof (cases "m_bpm p1 < 0")
      case True
      from 2 [OF ok True] True show ?thesis by simp
    next
      case False
      then have "0 \<le> m_bpm p1" by simp
      from 3 [OF ok this] obtain p' where "txtParseHeader ls p = Inr (ls', p')" by blast
      then show ?thesis using ok False by simp
    qed
  qed
  from 1 2 3 4 show ?thesis by (simp del: if_split)
qed

lemma fields_1:
  "txtParseFields [''#TITLE:Foo'', ''#ARTIST:Bar'', ''#BPM:60'', '': 4 4 5 la'', '': 8 0 0'', ''E''] [] header0
     = Inr (['': 8 0 0'', ''E''], '': 4 4 5 la'', header_1)"
  by (simp add: eval_defs parse_defs Let_def)

lemma fields_neg:
  "txtParseFields [''#TITLE:Foo'', ''#ARTIST:Bar'', ''#BPM:-5''] [] header0
     = Inr ([], ''#BPM:-5'', header_neg)"
  by (simp add: eval_defs parse_defs Let_def)

text \<open>
  A header with title, artist and BPM 60, ended by a note line; a header without artist,
  which raises the error of the missing fields; and a header with a negative BPM.
\<close>

theorem txtParseHeader_completion_witness:
  "txtParseFields [''#TITLE:Foo'', ''#ARTIST:Bar'', ''#BPM:60'', '': 4 4 5 la'', '': 8 0 0'', ''E''] [] header0
     = Inr (['': 8 0 0'', ''E''], '': 4 4 5 la'', header_1)
   \<and> title (m_song header_1) = ''Foo'' \<and> artist (m_song header_1) = ''Bar'' \<and> m_bpm header_1 = 60
   \<and> (\<exists>p'. txtParseHeader [''#TITLE:Foo'', ''#ARTIST:Bar'', ''#BPM:60'', '': 4 4 5 la'', '': 8 0 0'', ''E''] header0
               = Inr (['': 8 0 0'', ''E''], p')
          \<and> m_bpms p' = timebase_60
          \<and> map_find (vocalTracks (m_song p')) LEAD_VOCAL = Some (VocalTrack_new LEAD_VOCAL))
   \<and> txtParseFields [''#TITLE:Foo'', '': 4 4 5 la''] [] header0
        = Inr ([], '': 4 4 5 la'', header0\<lparr>m_song := song0\<lparr>title := ''Foo''\<rparr>\<rparr>)
   \<and> txtParseHeader [''#TITLE:Foo'', '': 4 4 5 la''] header0
        = Inl (RuntimeError ''Required header fields missing'')
   \<and> txtParseHeader [''#TITLE:Foo'', ''#ARTIST:Bar'', ''#BPM:-5''] header0 = Inl InvalidBPM"
proof -
  have t: "title (m_song header_1) = ''Foo''" "artist (m_song header_1) = ''Bar''" "m_bpm header_1 = 60"
    "m_bpms header_1 = Timebase_init"
    by (simp_all add: state_defs)
  have n: "title (m_song header_neg) = ''Foo''" "artist (m_song header_neg) = ''Bar''" "m_bpm header_neg = - 5"
    by (simp_all add: state_defs)
  have f2: "txtParseFields [''#TITLE:Foo'', '': 4 4 5 la''] [] header0
        = Inr ([], '': 4 4 5 la'', header0\<lparr>m_song := song0\<lparr>title := ''Foo''\<rparr>\<rparr>)"
    by (simp add: eval_defs parse_defs Let_def)
  have a: "artist (m_song (header0\<lparr>m_song := song0\<lparr>title := ''Foo''\<rparr>\<rparr>)) = []"
    by (simp add: state_defs)
  from txtParseHeader_completion [OF fields_1] txtParseHeader_completion [OF f2]
    txtParseHeader_completion [OF fields_neg] fields_1 f2 t n a reach_60
  show ?thesis by auto
qed

text \<open>
  The claim as stated fails on "only if": the header \<open>#TITLE:Foo\<close>, \<open>#ARTIST:Bar\<close>,
  \<open>#BPM:-5\<close> leaves a title and an artist, and header parsing raises an error all the same,
  since the timebase refuses the BPM.
\<close>

theorem txtParseHeader_completion_counterexample:
  "txtParseFields [''#TITLE:Foo'', ''#ARTIST:Bar'', ''#BPM:-5''] [] header0
     = Inr ([], ''#BPM:-5'', header_neg)
   \<and> title (m_song header_neg) = ''Foo'' \<and> artist (m_song header_neg) = ''Bar''
   \<and> m_bpm header_neg = - 5
   \<and> txtParseHeader [''#TITLE:Foo'', ''#ARTIST:Bar'', ''#BPM:-5''] header0 = Inl InvalidBPM"
  by (simp add: eval_defs parse_defs Let_def)

text \<open>
  Claim C9. After the note stream has completed, if the track's last note is not a SLEEP
  and its begin equals its end, that note is removed from the final note sequence (the
  track stored under \<open>LEAD_VOCAL\<close>); otherwise the final sequence is the parsed one, its
  last note unchanged.
\<close>

theorem txtParse_terminator:
  assumes hd: "txtParseFields ls [] p = Inr (ls1, line, p1)"
    and bp: "txtParse_bpm p1 = Inr q"
    and nt: "txtParseNotes ls1 line q (VocalTrack_new LEAD_VOCAL) = Inr (ls2, p2, vocal)"
  shows "\<exists>p' v. txtParse ls p = Inr (ls2, p')
           \<and> map_find (vocalTracks (m_song p')) LEAD_VOCAL = Some v
           \<and> getVocalTrack (m_song p') LEAD_VOCAL = v
           \<and> vt_notes v =
               (if vt_notes vocal \<noteq> [] \<and> n_type (last (vt_notes vocal)) \<noteq> SLEEP
                   \<and> n_begin (last (vt_notes vocal)) = n_end (last (vt_notes vocal))
                then butlast (vt_notes vocal) else vt_notes vocal)"
proof -
  let ?v = "if vt_notes vocal \<noteq> [] \<and> n_type (last (vt_notes vocal)) \<noteq> SLEEP
                   \<and> n_begin (last (vt_notes vocal)) = n_end (last (vt_notes vocal))
            then vocal\<lparr>vt_notes := butlast (vt_notes vocal)\<rparr> else vocal"
  let ?p' = "p2\<lparr>m_song := insertVocalTrack (m_song p2) LEAD_VOCAL ?v\<rparr>"
  have r: "txtParse ls p = Inr (ls2, ?p')"
    using hd bp nt by (simp add: txtParse_def Let_def del: txtParseNotes.simps)
  have f: "map_find (vocalTracks (m_song ?p')) LEAD_VOCAL = Some ?v"
    by (simp add: map_find_insertVocalTrack)
  then have g: "getVocalTrack (m_song ?p') LEAD_VOCAL = ?v"
    by (simp add: getVocalTrack_def del: if_split)
  have n: "vt_notes ?v =
               (if vt_notes vocal \<noteq> [] \<and> n_type (last (vt_notes vocal)) \<noteq> SLEEP
                   \<and> n_begin (last (vt_notes vocal)) = n_end (last (vt_notes vocal))
                then butlast (vt_notes vocal) else vt_notes vocal)"
    by simp
  from r f g n show ?thesis by blast
qed

text \<open>
  The note lines \<open>: 4 4 5 la\<close>, \<open>: 8 0 0\<close> and \<open>E\<close>: the note of length zero is parsed and
  then removed, and the final track holds the first note only.
\<close>

theorem txtParse_terminator_witness:
  "txtParseFields [''#TITLE:Foo'', ''#ARTIST:Bar'', ''#BPM:60'', '': 4 4 5 la'', '': 8 0 0'', ''E''] [] header0
     = Inr (['': 8 0 0'', ''E''], '': 4 4 5 la'', header_1)
   \<and> txtParse_bpm header_1 = Inr (header_1\<lparr>m_bpms := timebase_60\<rparr>)
   \<and> txtParseNotes ['': 8 0 0'', ''E''] '': 4 4 5 la'' (header_1\<lparr>m_bpms := timebase_60\<rparr>)
        (VocalTrack_new LEAD_VOCAL)
      = Inr ([], header_1\<lparr>m_bpms := timebase_60, m_prevtime := 2, m_prevts := 8\<rparr>, track_2)
   \<and> vt_notes track_2 = [note_1, note_2] \<and> n_type note_2 = NORMAL \<and> n_begin note_2 = n_end note_2
   \<and> (\<exists>p' v. txtParse [''#TITLE:Foo'', ''#ARTIST:Bar'', ''#BPM:60'', '': 4 4 5 la'', '': 8 0 0'', ''E''] header0
                 = Inr ([], p')
          \<and> getVocalTrack (m_song p') LEAD_VOCAL = v \<and> vt_notes v = [note_1])"
proof -
  have bp: "txtParse_bpm header_1 = Inr (header_1\<lparr>m_bpms := timebase_60\<rparr>)"
    by (simp add: state_defs tb_defs)
  have nt: "txtParseNotes ['': 8 0 0'', ''E''] '': 4 4 5 la'' (header_1\<lparr>m_bpms := timebase_60\<rparr>)
        (VocalTrack_new LEAD_VOCAL)
      = Inr ([], header_1\<lparr>m_bpms := timebase_60, m_prevtime := 2, m_prevts := 8\<rparr>, track_2)"
    by (simp add: eval_defs parse_defs Let_def)
  have v: "vt_notes track_2 = [note_1, note_2]" "n_type note_2 = NORMAL" "n_begin note_2 = n_end note_2"
    by (simp_all add: state_defs)
  from txtParse_terminator [OF fields_1 bp nt] obtain p' w where
    "txtParse [''#TITLE:Foo'', ''#ARTIST:Bar'', ''#BPM:60'', '': 4 4 5 la'', '': 8 0 0'', ''E''] header0
       = Inr ([], p')"
    "getVocalTrack (m_song p') LEAD_VOCAL = w"
    "vt_notes w = (if vt_notes track_2 \<noteq> [] \<and> n_type (last (vt_notes track_2)) \<noteq> SLEEP
                   \<and> n_begin (last (vt_notes track_2)) = n_end (last (vt_notes track_2))
                then butlast (vt_notes track_2) else vt_notes track_2)"
    by blast
  moreover from this(3) v have "vt_notes w = [note_1]" by simp
  ultimately have "\<exists>p' v. txtParse [''#TITLE:Foo'', ''#ARTIST:Bar'', ''#BPM:60'', '': 4 4 5 la'', '': 8 0 0'', ''E''] header0
                 = Inr ([], p')
          \<and> getVocalTrack (m_song p') LEAD_VOCAL = v \<and> vt_notes v = [note_1]"
    by blast
  with v fields_1 bp nt show ?thesis by blast
qed

end
